theory Spec2Isabelle
  imports Main
begin

section \<open>Data model of bin/daod/demo/tx.py\<close>

text \<open>
  A curve point is the triple the source indexes with \<open>[0]\<close>, \<open>[1]\<close>, \<open>[2]\<close>; the
  identity is written \<open>(0, 1, 0)\<close> in \<open>_check_value_commits\<close> and a point is negated there
  as \<open>(v[0], -v[1], v[2])\<close>. Python integers are unbounded, hence \<open>int\<close>.
\<close>

type_synonym point = "int \<times> int \<times> int"

datatype error = AssertionError | ZeroDivisionError | AttributeError | IndexError

text \<open>
  The curve object \<open>ec\<close> is handed to the builder from outside. The record holds the
  attributes and methods that tx.py reads from it (\<open>p\<close>, \<open>order\<close>, \<open>G\<close>, \<open>add\<close>,
  \<open>multiply\<close>, \<open>random_scalar\<close>, \<open>random_base\<close>) and the second generator \<open>H\<close> of the
  Pedersen commitment. The two samplers read and advance a generator state of type \<open>'r\<close>.
\<close>

record 'r curve =
  ec_p :: int
  ec_order :: int
  ec_G :: point
  ec_H :: point
  ec_add :: "point \<Rightarrow> point \<Rightarrow> point"
  ec_multiply :: "int \<Rightarrow> point \<Rightarrow> point"
  random_scalar :: "'r \<Rightarrow> int \<times> 'r"
  random_base :: "'r \<Rightarrow> int \<times> 'r"

text \<open>
  The functions imported from the module \<open>crypto\<close> whose bodies tx.py does not contain:
  \<open>ff_hash\<close> takes its positional arguments as a list; \<open>sign\<close> receives the curve and
  may sample, so it threads the generator state; \<open>verify\<close> is the signature check.
\<close>

record ('r, 'sg) crypto =
  ff_hash :: "int list \<Rightarrow> int"
  sign :: "string \<Rightarrow> int \<Rightarrow> 'r curve \<Rightarrow> 'r \<Rightarrow> 'sg \<times> 'r"
  verify :: "string \<Rightarrow> 'sg \<Rightarrow> point \<Rightarrow> 'r curve \<Rightarrow> bool"

text \<open>Modelled from the spec: \<open>pedersen_encrypt\<close> of the module \<open>crypto\<close> is not part of
  tx.py; the specification gives it as \<open>commit(v, r) = v\<cdot>G + r\<cdot>H\<close>.\<close>

definition pedersen_encrypt :: "int \<Rightarrow> int \<Rightarrow> 'r curve \<Rightarrow> point" where
  "pedersen_encrypt x y ec =
     ec_add ec (ec_multiply ec x (ec_G ec)) (ec_multiply ec y (ec_H ec))"

subsection \<open>The attribute bags of the builder\<close>

record plain_note =
  n_serial :: int
  n_value :: int
  n_token_id :: int
  n_coin_blind :: int
  n_value_blind :: int
  n_token_blind :: int
  n_depends :: int
  n_attrs :: int

record clear_input_spec =
  cs_value :: int
  cs_token_id :: int
  cs_signature_secret :: int

record input_spec =
  is_all_coins :: "int set"
  is_secret :: int
  is_note :: plain_note

record output_spec =
  os_value :: int
  os_token_id :: int
  os_public :: point
  os_depends :: int
  os_attrs :: int

record 'r transaction_builder =
  tb_clear_inputs :: "clear_input_spec list"
  tb_inputs :: "input_spec list"
  tb_outputs :: "output_spec list"
  tb_ec :: "'r curve"

subsection \<open>Proof objects and the transaction\<close>

record burn_revealed =
  br_nullifier :: int
  br_value_commit :: point
  br_token_commit :: point
  br_all_coins :: "int set"
  br_signature_public :: point

record 'r burn_proof =
  bp_value :: int
  bp_token_id :: int
  bp_value_blind :: int
  bp_token_blind :: int
  bp_serial :: int
  bp_coin_blind :: int
  bp_secret :: int
  bp_depends :: int
  bp_attrs :: int
  bp_all_coins :: "int set"
  bp_signature_secret :: int
  bp_ec :: "'r curve"

record mint_revealed =
  mr_coin :: int
  mr_value_commit :: point
  mr_token_commit :: point

record 'r mint_proof =
  mp_value :: int
  mp_token_id :: int
  mp_value_blind :: int
  mp_token_blind :: int
  mp_serial :: int
  mp_coin_blind :: int
  mp_public :: point
  mp_depends :: int
  mp_attrs :: int
  mp_ec :: "'r curve"

text \<open>The attribute \<open>signature\<close> of an input is set only by the signing loops at the end
  of \<open>build\<close>; until then it is absent, and reading it raises AttributeError.\<close>

record 'sg tx_clear_input =
  ci_value :: int
  ci_token_id :: int
  ci_value_blind :: int
  ci_token_blind :: int
  ci_signature_public :: point
  ci_signature :: "'sg option"

record ('r, 'sg) tx_input =
  ti_burn_proof :: "'r burn_proof"
  ti_revealed :: burn_revealed
  ti_signature :: "'sg option"

record 'r tx_output =
  to_mint_proof :: "'r mint_proof"
  to_revealed :: mint_revealed
  to_enc_note :: plain_note

record ('r, 'sg) transaction =
  tx_clear_inputs :: "'sg tx_clear_input list"
  tx_inputs :: "('r, 'sg) tx_input list"
  tx_outputs :: "'r tx_output list"
  tx_ec :: "'r curve"

text \<open>What \<open>Transaction.verify\<close> hands back: a pair \<open>(ok, reason)\<close> from a
  \<open>return a, b\<close> statement, or a single boolean from a \<open>return a\<close> statement.\<close>

datatype verify_result = Pair_result bool "string option" | Bool_result bool

section \<open>BurnProof and MintProof\<close>

definition burn_get_revealed :: "('r, 'sg) crypto \<Rightarrow> 'r burn_proof \<Rightarrow> burn_revealed" where
  "burn_get_revealed cr bp =
     \<lparr> br_nullifier = ff_hash cr [bp_secret bp, bp_serial bp],
       br_value_commit = pedersen_encrypt (bp_value bp) (bp_value_blind bp) (bp_ec bp),
       br_token_commit = pedersen_encrypt (bp_token_id bp) (bp_token_blind bp) (bp_ec bp),
       br_all_coins = bp_all_coins bp,
       br_signature_public =
         ec_multiply (bp_ec bp) (bp_signature_secret bp) (ec_G (bp_ec bp)) \<rparr>"

text \<open>The coin that \<open>BurnProof.verify\<close> recomputes from the witness.\<close>

definition burn_coin :: "('r, 'sg) crypto \<Rightarrow> 'r burn_proof \<Rightarrow> int" where
  "burn_coin cr bp =
     (let public_key = ec_multiply (bp_ec bp) (bp_secret bp) (ec_G (bp_ec bp))
      in ff_hash cr [ec_p (bp_ec bp), fst public_key, fst (snd public_key),
                     bp_value bp, bp_token_id bp, bp_serial bp, bp_coin_blind bp,
                     bp_depends bp, bp_attrs bp])"

definition burn_verify :: "('r, 'sg) crypto \<Rightarrow> 'r burn_proof \<Rightarrow> burn_revealed \<Rightarrow> bool" where
  "burn_verify cr bp public =
     (let revealed = burn_get_revealed cr bp;
          coin = burn_coin cr bp
      in if coin \<notin> bp_all_coins bp then False
         else (br_nullifier revealed = br_nullifier public \<and>
               br_value_commit revealed = br_value_commit public \<and>
               br_token_commit revealed = br_token_commit public \<and>
               br_all_coins revealed = br_all_coins public \<and>
               br_signature_public revealed = br_signature_public public))"

definition mint_get_revealed :: "('r, 'sg) crypto \<Rightarrow> 'r mint_proof \<Rightarrow> mint_revealed" where
  "mint_get_revealed cr mp =
     \<lparr> mr_coin = ff_hash cr [ec_p (mp_ec mp), fst (mp_public mp), fst (snd (mp_public mp)),
                             mp_value mp, mp_token_id mp, mp_serial mp, mp_coin_blind mp,
                             mp_depends mp, mp_attrs mp],
       mr_value_commit = pedersen_encrypt (mp_value mp) (mp_value_blind mp) (mp_ec mp),
       mr_token_commit = pedersen_encrypt (mp_token_id mp) (mp_token_blind mp) (mp_ec mp) \<rparr>"

definition mint_verify :: "('r, 'sg) crypto \<Rightarrow> 'r mint_proof \<Rightarrow> mint_revealed \<Rightarrow> bool" where
  "mint_verify cr mp public =
     (let revealed = mint_get_revealed cr mp
      in (mr_coin revealed = mr_coin public \<and>
          mr_value_commit revealed = mr_value_commit public \<and>
          mr_token_commit revealed = mr_token_commit public))"

section \<open>TransactionBuilder\<close>

text \<open>Python's \<open>%\<close> raises ZeroDivisionError on a zero modulus and otherwise takes the sign
  of the modulus, as \<open>mod\<close> on \<open>int\<close> does.\<close>

definition compute_remainder_blind ::
  "'r curve \<Rightarrow> 'sg tx_clear_input list \<Rightarrow> int list \<Rightarrow> int list \<Rightarrow> error + int" where
  "compute_remainder_blind ec clear_inputs input_blinds output_blinds =
     (let total = 0;
          total = total + sum_list (map ci_value_blind clear_inputs);
          total = total + sum_list input_blinds;
          total = total - sum_list output_blinds
      in if ec_order ec = 0 then Inl ZeroDivisionError else Inr (total mod ec_order ec))"

text \<open>First loop of \<open>build\<close>: one \<open>TransactionClearInput\<close> per clear input, each with a
  sampled value blind and the shared token blind.\<close>

fun build_clear_inputs ::
  "'r curve \<Rightarrow> int \<Rightarrow> clear_input_spec list \<Rightarrow> 'r \<Rightarrow> 'sg tx_clear_input list \<times> 'r" where
  "build_clear_inputs ec token_blind [] s = ([], s)"
| "build_clear_inputs ec token_blind (input # rest) s =
     (case random_scalar ec s of (value_blind, s1) \<Rightarrow>
        let tx_clear_input =
              \<lparr> ci_value = cs_value input,
                ci_token_id = cs_token_id input,
                ci_value_blind = value_blind,
                ci_token_blind = token_blind,
                ci_signature_public =
                  ec_multiply ec (cs_signature_secret input) (ec_G ec),
                ci_signature = None \<rparr>
        in case build_clear_inputs ec token_blind rest s1 of
             (tx_rest, s2) \<Rightarrow> (tx_clear_input # tx_rest, s2))"

text \<open>Second loop: the lists \<open>input_blinds\<close> and \<open>signature_secrets\<close> and the
  shielded inputs of the transaction, in the order of the builder's inputs.\<close>

fun build_inputs ::
  "('r, 'sg) crypto \<Rightarrow> 'r curve \<Rightarrow> int \<Rightarrow> input_spec list \<Rightarrow> 'r \<Rightarrow>
     (int list \<times> int list \<times> ('r, 'sg) tx_input list) \<times> 'r" where
  "build_inputs cr ec token_blind [] s = (([], [], []), s)"
| "build_inputs cr ec token_blind (input # rest) s =
     (case random_scalar ec s of (signature_secret, s1) \<Rightarrow>
        let burn_proof =
              \<lparr> bp_value = n_value (is_note input),
                bp_token_id = n_token_id (is_note input),
                bp_value_blind = n_value_blind (is_note input),
                bp_token_blind = token_blind,
                bp_serial = n_serial (is_note input),
                bp_coin_blind = n_coin_blind (is_note input),
                bp_secret = is_secret input,
                bp_depends = n_depends (is_note input),
                bp_attrs = n_attrs (is_note input),
                bp_all_coins = is_all_coins input,
                bp_signature_secret = signature_secret,
                bp_ec = ec \<rparr>;
            tx_input =
              \<lparr> ti_burn_proof = burn_proof,
                ti_revealed = burn_get_revealed cr burn_proof,
                ti_signature = None \<rparr>
        in case build_inputs cr ec token_blind rest s1 of
             ((input_blinds, signature_secrets, tx_rest), s2) \<Rightarrow>
               ((n_value_blind (is_note input) # input_blinds,
                 signature_secret # signature_secrets,
                 tx_input # tx_rest), s2))"

text \<open>Third loop, over \<open>enumerate(self.outputs)\<close>; \<open>n\<close> is \<open>len(self.outputs)\<close> and
  \<open>output_blinds\<close> the list accumulated so far. The self-check of the mint proof is an
  \<open>assert\<close>.\<close>

fun build_outputs ::
  "('r, 'sg) crypto \<Rightarrow> 'r curve \<Rightarrow> int \<Rightarrow> 'sg tx_clear_input list \<Rightarrow> int list \<Rightarrow> nat \<Rightarrow>
     (nat \<times> output_spec) list \<Rightarrow> int list \<Rightarrow> 'r \<Rightarrow> error + ('r tx_output list \<times> 'r)" where
  "build_outputs cr ec token_blind clear_inputs input_blinds n [] output_blinds s =
     Inr ([], s)"
| "build_outputs cr ec token_blind clear_inputs input_blinds n ((i, output) # rest)
       output_blinds s =
     (case (if int i = int n - 1
            then (case compute_remainder_blind ec clear_inputs input_blinds output_blinds of
                    Inl e \<Rightarrow> Inl e
                  | Inr value_blind \<Rightarrow> Inr (value_blind, s))
            else Inr (random_scalar ec s)) of
        Inl e \<Rightarrow> Inl e
      | Inr (value_blind, s1) \<Rightarrow>
          (case random_base ec s1 of (serial, s2) \<Rightarrow>
           case random_base ec s2 of (coin_blind, s3) \<Rightarrow>
             let note =
                   \<lparr> n_serial = serial,
                     n_value = os_value output,
                     n_token_id = os_token_id output,
                     n_coin_blind = coin_blind,
                     n_value_blind = value_blind,
                     n_token_blind = token_blind,
                     n_depends = os_depends output,
                     n_attrs = os_attrs output \<rparr>;
                 mint_proof =
                   \<lparr> mp_value = n_value note,
                     mp_token_id = n_token_id note,
                     mp_value_blind = n_value_blind note,
                     mp_token_blind = n_token_blind note,
                     mp_serial = n_serial note,
                     mp_coin_blind = n_coin_blind note,
                     mp_public = os_public output,
                     mp_depends = os_depends output,
                     mp_attrs = os_attrs output,
                     mp_ec = ec \<rparr>;
                 revealed = mint_get_revealed cr mint_proof
             in if \<not> mint_verify cr mint_proof revealed then Inl AssertionError
                else
                  let tx_output =
                        \<lparr> to_mint_proof = mint_proof,
                          to_revealed = revealed,
                          to_enc_note = note \<rparr>
                  in (case build_outputs cr ec token_blind clear_inputs input_blinds n rest
                             (output_blinds @ [value_blind]) s3 of
                        Inl e \<Rightarrow> Inl e
                      | Inr (tx_rest, s4) \<Rightarrow> Inr (tx_output # tx_rest, s4))))"

section \<open>Transaction\<close>

definition partial_encode :: "('r, 'sg) transaction \<Rightarrow> string" where
  "partial_encode tx = ''hello''"

text \<open>The two signing loops at the end of \<open>build\<close>, over
  \<open>zip(tx.clear_inputs, self.clear_inputs)\<close> and \<open>zip(tx.inputs, signature_secrets)\<close>.\<close>

fun sign_clear_inputs ::
  "('r, 'sg) crypto \<Rightarrow> 'r curve \<Rightarrow> string \<Rightarrow> ('sg tx_clear_input \<times> clear_input_spec) list \<Rightarrow>
     'r \<Rightarrow> 'sg tx_clear_input list \<times> 'r" where
  "sign_clear_inputs cr ec unsigned_tx_data [] s = ([], s)"
| "sign_clear_inputs cr ec unsigned_tx_data ((input, info) # rest) s =
     (let secret = cs_signature_secret info
      in case sign cr unsigned_tx_data secret ec s of (signature, s1) \<Rightarrow>
         case sign_clear_inputs cr ec unsigned_tx_data rest s1 of (signed_rest, s2) \<Rightarrow>
           (input\<lparr>ci_signature := Some signature\<rparr> # signed_rest, s2))"

fun sign_inputs ::
  "('r, 'sg) crypto \<Rightarrow> 'r curve \<Rightarrow> string \<Rightarrow> (('r, 'sg) tx_input \<times> int) list \<Rightarrow>
     'r \<Rightarrow> ('r, 'sg) tx_input list \<times> 'r" where
  "sign_inputs cr ec unsigned_tx_data [] s = ([], s)"
| "sign_inputs cr ec unsigned_tx_data ((input, signature_secret) # rest) s =
     (case sign cr unsigned_tx_data signature_secret ec s of (signature, s1) \<Rightarrow>
      case sign_inputs cr ec unsigned_tx_data rest s1 of (signed_rest, s2) \<Rightarrow>
        (input\<lparr>ti_signature := Some signature\<rparr> # signed_rest, s2))"

text \<open>\<open>TransactionBuilder.build\<close>. The result carries the generator state that the
  samplings leave behind.\<close>

definition build ::
  "('r, 'sg) crypto \<Rightarrow> 'r transaction_builder \<Rightarrow> 'r \<Rightarrow> error + (('r, 'sg) transaction \<times> 'r)" where
  "build cr b s0 =
     (let ec = tb_ec b
      in case random_scalar ec s0 of (token_blind, s1) \<Rightarrow>
         case build_clear_inputs ec token_blind (tb_clear_inputs b) s1 of
           (clear_inputs, s2) \<Rightarrow>
         case build_inputs cr ec token_blind (tb_inputs b) s2 of
           ((input_blinds, signature_secrets, inputs), s3) \<Rightarrow>
         if tb_outputs b = [] then Inl AssertionError
         else
           (case build_outputs cr ec token_blind clear_inputs input_blinds
                   (length (tb_outputs b)) (enumerate 0 (tb_outputs b)) [] s3 of
              Inl e \<Rightarrow> Inl e
            | Inr (outputs, s4) \<Rightarrow>
                (let tx = \<lparr> tx_clear_inputs = clear_inputs, tx_inputs = inputs,
                            tx_outputs = outputs, tx_ec = ec \<rparr>;
                     unsigned_tx_data = partial_encode tx
                 in case sign_clear_inputs cr ec unsigned_tx_data
                           (zip (tx_clear_inputs tx) (tb_clear_inputs b)) s4 of
                      (signed_clear, s5) \<Rightarrow>
                    case sign_inputs cr ec unsigned_tx_data
                           (zip (tx_inputs tx) signature_secrets) s5 of
                      (signed_inputs, s6) \<Rightarrow>
                        Inr (tx\<lparr> tx_clear_inputs := signed_clear,
                                 tx_inputs := signed_inputs \<rparr>, s6))))"

subsection \<open>The gates of verify\<close>

definition check_value_commits :: "('r, 'sg) transaction \<Rightarrow> bool" where
  "check_value_commits tx =
     (let valcom_total = (0, 1, 0);
          valcom_total =
            foldl (\<lambda>total input.
                     ec_add (tx_ec tx) total
                       (pedersen_encrypt (ci_value input) (ci_value_blind input) (tx_ec tx)))
                  valcom_total (tx_clear_inputs tx);
          valcom_total =
            foldl (\<lambda>total input.
                     ec_add (tx_ec tx) total (br_value_commit (ti_revealed input)))
                  valcom_total (tx_inputs tx);
          valcom_total =
            foldl (\<lambda>total output.
                     let v = mr_value_commit (to_revealed output);
                         value_commit = (fst v, - fst (snd v), snd (snd v))
                     in ec_add (tx_ec tx) total value_commit)
                  valcom_total (tx_outputs tx)
      in valcom_total = (0, 1, 0))"

fun check_burn_proofs :: "('r, 'sg) crypto \<Rightarrow> ('r, 'sg) tx_input list \<Rightarrow> bool" where
  "check_burn_proofs cr [] = True"
| "check_burn_proofs cr (input # rest) =
     (if \<not> burn_verify cr (ti_burn_proof input) (ti_revealed input) then False
      else check_burn_proofs cr rest)"

fun check_mint_proofs :: "('r, 'sg) crypto \<Rightarrow> 'r tx_output list \<Rightarrow> bool" where
  "check_mint_proofs cr [] = True"
| "check_mint_proofs cr (output # rest) =
     (if \<not> mint_verify cr (to_mint_proof output) (to_revealed output) then False
      else check_mint_proofs cr rest)"

definition check_proofs :: "('r, 'sg) crypto \<Rightarrow> ('r, 'sg) transaction \<Rightarrow> bool" where
  "check_proofs cr tx =
     (if \<not> check_burn_proofs cr (tx_inputs tx) then False
      else if \<not> check_mint_proofs cr (tx_outputs tx) then False
      else True)"

fun token_clear_inputs :: "'r curve \<Rightarrow> point \<Rightarrow> 'sg tx_clear_input list \<Rightarrow> bool" where
  "token_clear_inputs ec token_commit_value [] = True"
| "token_clear_inputs ec token_commit_value (input # rest) =
     (let token_commit = pedersen_encrypt (ci_token_id input) (ci_token_blind input) ec
      in if token_commit \<noteq> token_commit_value then False
         else token_clear_inputs ec token_commit_value rest)"

fun token_inputs :: "point \<Rightarrow> ('r, 'sg) tx_input list \<Rightarrow> bool" where
  "token_inputs token_commit_value [] = True"
| "token_inputs token_commit_value (input # rest) =
     (if br_token_commit (ti_revealed input) \<noteq> token_commit_value then False
      else token_inputs token_commit_value rest)"

fun token_outputs :: "point \<Rightarrow> 'r tx_output list \<Rightarrow> bool" where
  "token_outputs token_commit_value [] = True"
| "token_outputs token_commit_value (output # rest) =
     (if mr_token_commit (to_revealed output) \<noteq> token_commit_value then False
      else token_outputs token_commit_value rest)"

definition verify_token_commitments :: "('r, 'sg) transaction \<Rightarrow> error + bool" where
  "verify_token_commitments tx =
     (if \<not> length (tx_outputs tx) > 0 then Inl AssertionError
      else
        (case tx_outputs tx of
           [] \<Rightarrow> Inl IndexError
         | first_output # _ \<Rightarrow>
             (let token_commit_value = mr_token_commit (to_revealed first_output)
              in if \<not> token_clear_inputs (tx_ec tx) token_commit_value (tx_clear_inputs tx)
                 then Inr False
                 else if \<not> token_inputs token_commit_value (tx_inputs tx) then Inr False
                 else if \<not> token_outputs token_commit_value (tx_outputs tx) then Inr False
                 else Inr True)))"

text \<open>The signature loops of \<open>verify\<close>: \<open>Inr False\<close> is the early \<open>return False\<close>,
  \<open>Inr True\<close> the end of the loop.\<close>

fun verify_clear_signatures ::
  "('r, 'sg) crypto \<Rightarrow> 'r curve \<Rightarrow> string \<Rightarrow> 'sg tx_clear_input list \<Rightarrow> error + bool" where
  "verify_clear_signatures cr ec unsigned_tx_data [] = Inr True"
| "verify_clear_signatures cr ec unsigned_tx_data (input # rest) =
     (let public = ci_signature_public input
      in case ci_signature input of
           None \<Rightarrow> Inl AttributeError
         | Some signature \<Rightarrow>
             if \<not> verify cr unsigned_tx_data signature public ec then Inr False
             else verify_clear_signatures cr ec unsigned_tx_data rest)"

fun verify_input_signatures ::
  "('r, 'sg) crypto \<Rightarrow> 'r curve \<Rightarrow> string \<Rightarrow> ('r, 'sg) tx_input list \<Rightarrow> error + bool" where
  "verify_input_signatures cr ec unsigned_tx_data [] = Inr True"
| "verify_input_signatures cr ec unsigned_tx_data (input # rest) =
     (let public = br_signature_public (ti_revealed input)
      in case ti_signature input of
           None \<Rightarrow> Inl AttributeError
         | Some signature \<Rightarrow>
             if \<not> verify cr unsigned_tx_data signature public ec then Inr False
             else verify_input_signatures cr ec unsigned_tx_data rest)"

definition tx_verify :: "('r, 'sg) crypto \<Rightarrow> ('r, 'sg) transaction \<Rightarrow> error + verify_result" where
  "tx_verify cr tx =
     (if \<not> check_value_commits tx
      then Inr (Pair_result False (Some ''value commits do not match''))
      else if \<not> check_proofs cr tx
      then Inr (Pair_result False (Some ''proofs failed to verify''))
      else
        (case verify_token_commitments tx of
           Inl e \<Rightarrow> Inl e
         | Inr False \<Rightarrow> Inr (Pair_result False (Some ''token ID mismatch''))
         | Inr True \<Rightarrow>
             (let unsigned_tx_data = partial_encode tx
              in (case verify_clear_signatures cr (tx_ec tx) unsigned_tx_data
                         (tx_clear_inputs tx) of
                    Inl e \<Rightarrow> Inl e
                  | Inr False \<Rightarrow> Inr (Bool_result False)
                  | Inr True \<Rightarrow>
                      (case verify_input_signatures cr (tx_ec tx) unsigned_tx_data
                              (tx_inputs tx) of
                         Inl e \<Rightarrow> Inl e
                       | Inr False \<Rightarrow> Inr (Bool_result False)
                       | Inr True \<Rightarrow> Inr (Pair_result True None))))))"

section \<open>What the transaction code expects of its collaborators\<close>

text \<open>
  The curve and the signature primitive are not part of tx.py. The specification asks of
  them that the points form a group under \<open>add\<close> in which \<open>multiply\<close> is scalar
  multiplication modulo the scalar-field order, that negation of the second coordinate is
  the additive inverse, that the Pedersen commitment is homomorphic, and that a signature
  made with a secret verifies under the matching public key. \<open>curve_ok ec pts lg\<close>
  states the group part for the triples in \<open>pts\<close> (the points of the curve) through a map
  \<open>lg\<close> from points to residues modulo the order (a discrete logarithm): the identity
  and the two generators are points, \<open>add\<close> and \<open>multiply\<close> stay among the points,
  \<open>add\<close> adds residues, \<open>multiply\<close> scales them, negating the second coordinate
  negates them, and a sum with residue zero is the identity triple \<open>(0, 1, 0)\<close> itself,
  which is what \<open>_check_value_commits\<close> compares with. Nothing is asked of \<open>add\<close> and
  \<open>multiply\<close> on other triples.
\<close>

definition curve_ok :: "'r curve \<Rightarrow> point set \<Rightarrow> (point \<Rightarrow> int) \<Rightarrow> bool" where
  "curve_ok ec pts lg \<longleftrightarrow>
     0 < ec_order ec \<and> (0, 1, 0) \<in> pts \<and> ec_G ec \<in> pts \<and> ec_H ec \<in> pts \<and>
     (\<forall>P Q. P \<in> pts \<and> Q \<in> pts \<longrightarrow>
        ec_add ec P Q \<in> pts \<and>
        lg (ec_add ec P Q) mod ec_order ec = (lg P + lg Q) mod ec_order ec \<and>
        (lg (ec_add ec P Q) mod ec_order ec = 0 \<longrightarrow> ec_add ec P Q = (0, 1, 0))) \<and>
     (\<forall>m P. P \<in> pts \<longrightarrow>
        ec_multiply ec m P \<in> pts \<and>
        lg (ec_multiply ec m P) mod ec_order ec = (m * lg P) mod ec_order ec) \<and>
     (\<forall>x y z. (x, y, z) \<in> pts \<longrightarrow>
        (x, - y, z) \<in> pts \<and>
        lg (x, - y, z) mod ec_order ec = (- lg (x, y, z)) mod ec_order ec)"

definition signature_ok :: "('r, 'sg) crypto \<Rightarrow> 'r curve \<Rightarrow> bool" where
  "signature_ok cr ec \<longleftrightarrow>
     (\<forall>msg secret s.
        verify cr msg (fst (sign cr msg secret ec s)) (ec_multiply ec secret (ec_G ec)) ec)"

text \<open>The coin of a shielded input of the builder: the hash that \<open>BurnProof.verify\<close>
  will recompute from the note and the secret.\<close>

definition input_coin :: "('r, 'sg) crypto \<Rightarrow> 'r curve \<Rightarrow> input_spec \<Rightarrow> int" where
  "input_coin cr ec input =
     (let pk = ec_multiply ec (is_secret input) (ec_G ec)
      in ff_hash cr [ec_p ec, fst pk, fst (snd pk),
                     n_value (is_note input), n_token_id (is_note input),
                     n_serial (is_note input), n_coin_blind (is_note input),
                     n_depends (is_note input), n_attrs (is_note input)])"

text \<open>The generator state in which the loop over the outputs samples the value blind of
  output \<open>i\<close>, when the loop starts in state \<open>s\<close>: every earlier output has drawn one
  scalar and two base-field elements.\<close>

definition after_output :: "'r curve \<Rightarrow> 'r \<Rightarrow> 'r" where
  "after_output ec s = snd (random_base ec (snd (random_base ec (snd (random_scalar ec s)))))"

definition outputs_start :: "('r, 'sg) crypto \<Rightarrow> 'r transaction_builder \<Rightarrow> 'r \<Rightarrow> 'r" where
  "outputs_start cr b s0 =
     (case random_scalar (tb_ec b) s0 of (token_blind, s1) \<Rightarrow>
      case build_clear_inputs (tb_ec b) token_blind (tb_clear_inputs b) s1 of
        (clear_inputs :: 'sg tx_clear_input list, s2) \<Rightarrow>
          snd (build_inputs cr (tb_ec b) token_blind (tb_inputs b) s2))"

section \<open>How the builder's specs show in the transaction\<close>

text \<open>The relations that the three loops of \<open>build\<close> establish between a spec of the
  builder and the entry of the transaction made from it.\<close>

definition clear_built ::
  "'r curve \<Rightarrow> int \<Rightarrow> clear_input_spec \<Rightarrow> 'sg tx_clear_input \<Rightarrow> bool" where
  "clear_built ec token_blind input ci \<longleftrightarrow>
     ci_value ci = cs_value input \<and> ci_token_id ci = cs_token_id input \<and>
     ci_token_blind ci = token_blind \<and>
     ci_signature_public ci = ec_multiply ec (cs_signature_secret input) (ec_G ec)"

definition input_built ::
  "('r, 'sg) crypto \<Rightarrow> 'r curve \<Rightarrow> int \<Rightarrow> input_spec \<Rightarrow> ('r, 'sg) tx_input \<Rightarrow> bool" where
  "input_built cr ec token_blind input ti \<longleftrightarrow>
     (let bp = ti_burn_proof ti; note = is_note input
      in bp_value bp = n_value note \<and> bp_token_id bp = n_token_id note \<and>
         bp_value_blind bp = n_value_blind note \<and> bp_token_blind bp = token_blind \<and>
         bp_serial bp = n_serial note \<and> bp_coin_blind bp = n_coin_blind note \<and>
         bp_secret bp = is_secret input \<and> bp_depends bp = n_depends note \<and>
         bp_attrs bp = n_attrs note \<and> bp_all_coins bp = is_all_coins input \<and>
         bp_ec bp = ec \<and> ti_revealed ti = burn_get_revealed cr bp)"

definition output_built ::
  "('r, 'sg) crypto \<Rightarrow> 'r curve \<Rightarrow> int \<Rightarrow> output_spec \<Rightarrow> 'r tx_output \<Rightarrow> bool" where
  "output_built cr ec token_blind output out \<longleftrightarrow>
     (let mp = to_mint_proof out; note = to_enc_note out
      in mp_value mp = os_value output \<and> mp_token_id mp = os_token_id output \<and>
         mp_value_blind mp = n_value_blind note \<and> mp_token_blind mp = token_blind \<and>
         mp_serial mp = n_serial note \<and> mp_coin_blind mp = n_coin_blind note \<and>
         mp_public mp = os_public output \<and> mp_depends mp = os_depends output \<and>
         mp_attrs mp = os_attrs output \<and> mp_ec mp = ec \<and>
         n_value note = os_value output \<and> n_token_id note = os_token_id output \<and>
         n_token_blind note = token_blind \<and> n_depends note = os_depends output \<and>
         n_attrs note = os_attrs output \<and>
         to_revealed out = mint_get_revealed cr mp)"

text \<open>The negation that \<open>_check_value_commits\<close> applies to the value commitment of an
  output.\<close>

definition neg_point :: "point \<Rightarrow> point" where
  "neg_point v = (fst v, - fst (snd v), snd (snd v))"

section \<open>A small instance\<close>

text \<open>
  The integers modulo 7 as a curve object: the residue \<open>k \<noteq> 0\<close> is the point
  \<open>(0, k, 1)\<close> and the residue 0 is the identity \<open>(0, 1, 0)\<close>; \<open>G\<close> is the residue 1
  and \<open>H\<close> the residue 3. The samplers count upwards from the generator state. The hash
  adds its arguments modulo 11; a signature is the message together with the public key
  of the signer.
\<close>

definition demo_lg :: "point \<Rightarrow> int" where
  "demo_lg P = (case P of (x, y, z) \<Rightarrow> if z = 0 then 0 else y)"

definition demo_point :: "int \<Rightarrow> point" where
  "demo_point k = (if k mod 7 = 0 then (0, 1, 0) else (0, k mod 7, 1))"

definition demo_curve :: "nat curve" where
  "demo_curve =
     \<lparr> ec_p = 11, ec_order = 7, ec_G = (0, 1, 1), ec_H = (0, 3, 1),
       ec_add = (\<lambda>P Q. demo_point (demo_lg P + demo_lg Q)),
       ec_multiply = (\<lambda>m P. demo_point (m * demo_lg P)),
       random_scalar = (\<lambda>s. (int s + 2, Suc s)),
       random_base = (\<lambda>s. (int s + 5, Suc s)) \<rparr>"

definition demo_crypto :: "(nat, string \<times> point) crypto" where
  "demo_crypto =
     \<lparr> ff_hash = (\<lambda>xs. sum_list xs mod 11),
       sign = (\<lambda>msg secret ec s. ((msg, ec_multiply ec secret (ec_G ec)), s)),
       verify = (\<lambda>msg sg public ec. sg = (msg, public)) \<rparr>"

definition demo_note :: plain_note where
  "demo_note =
     \<lparr> n_serial = 1, n_value = 10, n_token_id = 2, n_coin_blind = 1,
       n_value_blind = 4, n_token_blind = 5, n_depends = 0, n_attrs = 0 \<rparr>"

text \<open>One clear input of value 5, one shielded input of value 10 whose coin 6 is in its
  coin set, and two outputs of values 9 and 6, all of token 2.\<close>

definition demo_builder :: "nat transaction_builder" where
  "demo_builder =
     \<lparr> tb_clear_inputs = [\<lparr> cs_value = 5, cs_token_id = 2, cs_signature_secret = 3 \<rparr>],
       tb_inputs = [\<lparr> is_all_coins = {6}, is_secret = 3, is_note = demo_note \<rparr>],
       tb_outputs = [\<lparr> os_value = 9, os_token_id = 2, os_public = (0, 4, 1),
                        os_depends = 0, os_attrs = 0 \<rparr>,
                     \<lparr> os_value = 6, os_token_id = 2, os_public = (0, 2, 1),
                        os_depends = 0, os_attrs = 0 \<rparr>],
       tb_ec = demo_curve \<rparr>"

text \<open>The transaction that \<open>build\<close> makes of \<open>demo_builder\<close> from generator state 0.\<close>

definition demo_tx :: "(nat, string \<times> point) transaction" where
  "demo_tx =
     \<lparr> tx_clear_inputs =
         [\<lparr> ci_value = 5, ci_token_id = 2, ci_value_blind = 3, ci_token_blind = 2,
            ci_signature_public = (0, 3, 1),
            ci_signature = Some (''hello'', (0, 3, 1)) \<rparr>],
       tx_inputs =
         [\<lparr> ti_burn_proof =
              \<lparr> bp_value = 10, bp_token_id = 2, bp_value_blind = 4, bp_token_blind = 2,
                bp_serial = 1, bp_coin_blind = 1, bp_secret = 3, bp_depends = 0,
                bp_attrs = 0, bp_all_coins = {6}, bp_signature_secret = 4,
                bp_ec = demo_curve \<rparr>,
            ti_revealed =
              \<lparr> br_nullifier = 4, br_value_commit = (0, 1, 1),
                br_token_commit = (0, 1, 1), br_all_coins = {6},
                br_signature_public = (0, 4, 1) \<rparr>,
            ti_signature = Some (''hello'', (0, 4, 1)) \<rparr>],
       tx_outputs =
         [\<lparr> to_mint_proof =
              \<lparr> mp_value = 9, mp_token_id = 2, mp_value_blind = 5, mp_token_blind = 2,
                mp_serial = 9, mp_coin_blind = 10, mp_public = (0, 4, 1), mp_depends = 0,
                mp_attrs = 0, mp_ec = demo_curve \<rparr>,
            to_revealed =
              \<lparr> mr_coin = 1, mr_value_commit = (0, 3, 1), mr_token_commit = (0, 1, 1) \<rparr>,
            to_enc_note =
              \<lparr> n_serial = 9, n_value = 9, n_token_id = 2, n_coin_blind = 10,
                n_value_blind = 5, n_token_blind = 2, n_depends = 0, n_attrs = 0 \<rparr> \<rparr>,
          \<lparr> to_mint_proof =
              \<lparr> mp_value = 6, mp_token_id = 2, mp_value_blind = 2, mp_token_blind = 2,
                mp_serial = 11, mp_coin_blind = 12, mp_public = (0, 2, 1), mp_depends = 0,
                mp_attrs = 0, mp_ec = demo_curve \<rparr>,
            to_revealed =
              \<lparr> mr_coin = 0, mr_value_commit = (0, 5, 1), mr_token_commit = (0, 1, 1) \<rparr>,
            to_enc_note =
              \<lparr> n_serial = 11, n_value = 6, n_token_id = 2, n_coin_blind = 12,
                n_value_blind = 2, n_token_blind = 2, n_depends = 0, n_attrs = 0 \<rparr> \<rparr>],
       tx_ec = demo_curve \<rparr>"

text \<open>A clear input of value 5 against an output of value 6, and the transaction that
  \<open>build\<close> makes of it from generator state 0.\<close>

definition demo_unbalanced_builder :: "nat transaction_builder" where
  "demo_unbalanced_builder =
     \<lparr> tb_clear_inputs = [\<lparr> cs_value = 5, cs_token_id = 2, cs_signature_secret = 3 \<rparr>],
       tb_inputs = [],
       tb_outputs = [\<lparr> os_value = 6, os_token_id = 2, os_public = (0, 4, 1),
                        os_depends = 0, os_attrs = 0 \<rparr>],
       tb_ec = demo_curve \<rparr>"

definition demo_unbalanced_tx :: "(nat, string \<times> point) transaction" where
  "demo_unbalanced_tx =
     \<lparr> tx_clear_inputs =
         [\<lparr> ci_value = 5, ci_token_id = 2, ci_value_blind = 3, ci_token_blind = 2,
            ci_signature_public = (0, 3, 1),
            ci_signature = Some (''hello'', (0, 3, 1)) \<rparr>],
       tx_inputs = [],
       tx_outputs =
         [\<lparr> to_mint_proof =
              \<lparr> mp_value = 6, mp_token_id = 2, mp_value_blind = 3, mp_token_blind = 2,
                mp_serial = 7, mp_coin_blind = 8, mp_public = (0, 4, 1), mp_depends = 0,
                mp_attrs = 0, mp_ec = demo_curve \<rparr>,
            to_revealed =
              \<lparr> mr_coin = 5, mr_value_commit = (0, 1, 1), mr_token_commit = (0, 1, 1) \<rparr>,
            to_enc_note =
              \<lparr> n_serial = 7, n_value = 6, n_token_id = 2, n_coin_blind = 8,
                n_value_blind = 3, n_token_blind = 2, n_depends = 0, n_attrs = 0 \<rparr> \<rparr>],
       tx_ec = demo_curve \<rparr>"

text \<open>\<open>demo_tx\<close> with the signature of its clear input replaced by one made under the
  secret 5 instead of 3.\<close>

definition demo_forged_tx :: "(nat, string \<times> point) transaction" where
  "demo_forged_tx =
     demo_tx \<lparr> tx_clear_inputs :=
       [\<lparr> ci_value = 5, ci_token_id = 2, ci_value_blind = 3, ci_token_blind = 2,
          ci_signature_public = (0, 3, 1),
          ci_signature = Some (''hello'', (0, 5, 1)) \<rparr>] \<rparr>"

text \<open>\<open>demo_tx\<close> with the coin set of its shielded input replaced by one that lacks the
  coin 6 of the note, in the proof and in the revealed values alike.\<close>

definition demo_foreign_tx :: "(nat, string \<times> point) transaction" where
  "demo_foreign_tx =
     demo_tx \<lparr> tx_inputs :=
       [\<lparr> ti_burn_proof =
            \<lparr> bp_value = 10, bp_token_id = 2, bp_value_blind = 4, bp_token_blind = 2,
              bp_serial = 1, bp_coin_blind = 1, bp_secret = 3, bp_depends = 0,
              bp_attrs = 0, bp_all_coins = {7}, bp_signature_secret = 4,
              bp_ec = demo_curve \<rparr>,
          ti_revealed =
            \<lparr> br_nullifier = 4, br_value_commit = (0, 1, 1),
              br_token_commit = (0, 1, 1), br_all_coins = {7},
              br_signature_public = (0, 4, 1) \<rparr>,
          ti_signature = Some (''hello'', (0, 4, 1)) \<rparr>] \<rparr>"

text \<open>Transactions without outputs: an empty one, and one whose single clear input
  commits to a value that nothing balances.\<close>

definition demo_empty_tx :: "(nat, string \<times> point) transaction" where
  "demo_empty_tx =
     \<lparr> tx_clear_inputs = [], tx_inputs = [], tx_outputs = [], tx_ec = demo_curve \<rparr>"

definition demo_no_output_tx :: "(nat, string \<times> point) transaction" where
  "demo_no_output_tx =
     \<lparr> tx_clear_inputs =
         [\<lparr> ci_value = 5, ci_token_id = 2, ci_value_blind = 1, ci_token_blind = 2,
            ci_signature_public = (0, 3, 1),
            ci_signature = Some (''hello'', (0, 3, 1)) \<rparr>],
       tx_inputs = [], tx_outputs = [], tx_ec = demo_curve \<rparr>"

section \<open>The loops of build\<close>

text \<open>What each loop of \<open>build\<close> leaves in the transaction, by induction over the list it
  runs through; the signing loops change the signatures and nothing else, and under
  \<open>signature_ok\<close> every signature they attach verifies.\<close>

lemma build_clear_inputs_built:
  "build_clear_inputs ec tb specs s = (cis, s') \<Longrightarrow> list_all2 (clear_built ec tb) specs cis"
  by (induction specs arbitrary: s cis s')
     (auto split: prod.splits simp: Let_def clear_built_def)

lemma build_inputs_built:
  "build_inputs cr ec tb specs s = ((ibs, secs, tis), s') \<Longrightarrow>
     ibs = map (\<lambda>input. n_value_blind (is_note input)) specs \<and>
     length secs = length specs \<and>
     map (\<lambda>ti. bp_signature_secret (ti_burn_proof ti)) tis = secs \<and>
     list_all2 (input_built cr ec tb) specs tis"
  by (induction specs arbitrary: s ibs secs tis s')
     (auto split: prod.splits simp: Let_def input_built_def)

lemma sign_clear_inputs_map:
  assumes "\<And>ci sg. f (ci\<lparr>ci_signature := sg\<rparr>) = f ci"
  shows "map f (fst (sign_clear_inputs cr ec d zs s)) = map f (map fst zs)"
  using assms by (induction zs arbitrary: s) (auto simp: Let_def split_beta)

lemma sign_inputs_map:
  assumes "\<And>ti sg. f (ti\<lparr>ti_signature := sg\<rparr>) = f ti"
  shows "map f (fst (sign_inputs cr ec d zs s)) = map f (map fst zs)"
  using assms by (induction zs arbitrary: s) (auto simp: Let_def split_beta)

lemma sign_clear_inputs_verify:
  assumes "signature_ok cr ec"
      and "\<forall>(ci, info) \<in> set zs. ci_signature_public ci = ec_multiply ec (cs_signature_secret info) (ec_G ec)"
  shows "verify_clear_signatures cr ec d (fst (sign_clear_inputs cr ec d zs s)) = Inr True"
  using assms(2)
proof (induction zs arbitrary: s)
  case Nil
  then show ?case by simp
next
  case (Cons z zs)
  obtain ci info where z: "z = (ci, info)" by (cases z)
  obtain sg s1 where sg: "sign cr d (cs_signature_secret info) ec s = (sg, s1)"
    by (cases "sign cr d (cs_signature_secret info) ec s")
  have ok: "verify cr d sg (ec_multiply ec (cs_signature_secret info) (ec_G ec)) ec"
    using assms(1) sg unfolding signature_ok_def by (metis fst_conv)
  have pub: "ci_signature_public ci = ec_multiply ec (cs_signature_secret info) (ec_G ec)"
    using Cons.prems z by simp
  have rest: "verify_clear_signatures cr ec d (fst (sign_clear_inputs cr ec d zs s1)) = Inr True"
    using Cons.IH Cons.prems by simp
  show ?case using z sg ok pub rest
    by (simp add: Let_def split_beta)
qed

lemma sign_inputs_verify:
  assumes "signature_ok cr ec"
      and "\<forall>(ti, sec) \<in> set zs. br_signature_public (ti_revealed ti) = ec_multiply ec sec (ec_G ec)"
  shows "verify_input_signatures cr ec d (fst (sign_inputs cr ec d zs s)) = Inr True"
  using assms(2)
proof (induction zs arbitrary: s)
  case Nil
  then show ?case by simp
next
  case (Cons z zs)
  obtain ti sec where z: "z = (ti, sec)" by (cases z)
  obtain sg s1 where sg: "sign cr d sec ec s = (sg, s1)"
    by (cases "sign cr d sec ec s")
  have ok: "verify cr d sg (ec_multiply ec sec (ec_G ec)) ec"
    using assms(1) sg unfolding signature_ok_def by (metis fst_conv)
  have pub: "br_signature_public (ti_revealed ti) = ec_multiply ec sec (ec_G ec)"
    using Cons.prems z by simp
  have rest: "verify_input_signatures cr ec d (fst (sign_inputs cr ec d zs s1)) = Inr True"
    using Cons.IH Cons.prems by simp
  show ?case using z sg ok pub rest
    by (simp add: Let_def split_beta)
qed

lemma build_outputs_Cons:
  assumes "build_outputs cr ec tb cis ib n ((i, outp) # rest) acc s = Inr (tos, s')"
  shows "\<exists>vb out tos'.
           (if int i = int n - 1 then compute_remainder_blind ec cis ib acc = Inr vb
            else vb = fst (random_scalar ec s)) \<and>
           tos = out # tos' \<and> n_value_blind (to_enc_note out) = vb \<and>
           output_built cr ec tb outp out \<and>
           build_outputs cr ec tb cis ib n rest (acc @ [vb])
             (snd (random_base ec (snd (random_base ec
                (if int i = int n - 1 then s else snd (random_scalar ec s)))))) = Inr (tos', s')"
  using assms
  by (auto simp: Let_def split_beta output_built_def split: if_splits sum.splits)

lemma build_outputs_built:
  "build_outputs cr ec tb cis ib n eos acc s = Inr (tos, s') \<Longrightarrow>
     list_all2 (output_built cr ec tb) (map snd eos) tos"
proof (induction eos arbitrary: acc s tos)
  case Nil
  then show ?case by simp
next
  case (Cons eo eos)
  obtain i outp where eo: "eo = (i, outp)" by (cases eo)
  from build_outputs_Cons[OF Cons.prems[unfolded eo]]
  obtain vb s1 out tos' where
    tos: "tos = out # tos'" and built: "output_built cr ec tb outp out" and
    rest: "build_outputs cr ec tb cis ib n eos (acc @ [vb]) s1 = Inr (tos', s')"
    by blast
  from Cons.IH[OF rest] tos built eo show ?case by simp
qed


lemma build_outputs_blinds:
  assumes "build_outputs cr ec tb cis ib n (enumerate k outs) acc s = Inr (tos, s')"
      and "k + length outs = n" and "outs \<noteq> []"
  shows "length tos = length outs \<and> ec_order ec \<noteq> 0 \<and>
         map (\<lambda>out. n_value_blind (to_enc_note out)) tos ! (length outs - 1) =
           (sum_list (map ci_value_blind cis) + sum_list ib
              - (sum_list acc
                 + sum_list (take (length outs - 1)
                     (map (\<lambda>out. n_value_blind (to_enc_note out)) tos)))) mod ec_order ec \<and>
         (\<forall>j < length outs - 1.
            map (\<lambda>out. n_value_blind (to_enc_note out)) tos ! j =
              fst (random_scalar ec ((after_output ec ^^ j) s)))"
  using assms
proof (induction outs arbitrary: k acc s tos)
  case Nil
  then show ?case by simp
next
  case (Cons outp outs)
  have en: "enumerate k (outp # outs) = (k, outp) # enumerate (Suc k) outs" by simp
  from build_outputs_Cons[OF Cons.prems(1)[unfolded en]]
  obtain vb out tos' where
    vb: "if int k = int n - 1 then compute_remainder_blind ec cis ib acc = Inr vb
         else vb = fst (random_scalar ec s)" and
    tos: "tos = out # tos'" and nvb: "n_value_blind (to_enc_note out) = vb" and
    rest: "build_outputs cr ec tb cis ib n (enumerate (Suc k) outs) (acc @ [vb])
             (snd (random_base ec (snd (random_base ec
                (if int k = int n - 1 then s else snd (random_scalar ec s)))))) = Inr (tos', s')"
    by blast
  show ?case
  proof (cases "outs = []")
    case True
    with Cons.prems(2) have last: "int k = int n - 1" by simp
    from True rest have tos': "tos' = []" by simp
    from vb last have "compute_remainder_blind ec cis ib acc = Inr vb" by simp
    then have "ec_order ec \<noteq> 0"
      and "vb = (sum_list (map ci_value_blind cis) + sum_list ib - sum_list acc) mod ec_order ec"
      by (auto simp: compute_remainder_blind_def Let_def split: if_splits)
    with True tos tos' nvb show ?thesis by simp
  next
    case False
    with Cons.prems(2) have notlast: "int k \<noteq> int n - 1" by auto
    from notlast vb have vb': "vb = fst (random_scalar ec s)" by simp
    from notlast rest have rest':
      "build_outputs cr ec tb cis ib n (enumerate (Suc k) outs) (acc @ [vb])
         (after_output ec s) = Inr (tos', s')"
      by (simp add: after_output_def)
    from Cons.prems(2) have "Suc k + length outs = n" by simp
    from Cons.IH[OF rest' this False]
    have len: "length tos' = length outs" and ord: "ec_order ec \<noteq> 0"
      and lastb: "map (\<lambda>out. n_value_blind (to_enc_note out)) tos' ! (length outs - 1) =
           (sum_list (map ci_value_blind cis) + sum_list ib
              - (sum_list (acc @ [vb])
                 + sum_list (take (length outs - 1)
                     (map (\<lambda>out. n_value_blind (to_enc_note out)) tos')))) mod ec_order ec"
      and others: "\<forall>j < length outs - 1.
            map (\<lambda>out. n_value_blind (to_enc_note out)) tos' ! j =
              fst (random_scalar ec ((after_output ec ^^ j) (after_output ec s)))"
      by blast+
    from False obtain m where m: "length outs = Suc m" by (cases outs) auto
    have c1: "length tos = length (outp # outs)" using tos len by simp
    have c3: "map (\<lambda>out. n_value_blind (to_enc_note out)) tos ! (length (outp # outs) - 1) =
           (sum_list (map ci_value_blind cis) + sum_list ib
              - (sum_list acc
                 + sum_list (take (length (outp # outs) - 1)
                     (map (\<lambda>out. n_value_blind (to_enc_note out)) tos)))) mod ec_order ec"
      using lastb tos nvb m by (simp add: algebra_simps)
    have c4: "\<forall>j < length (outp # outs) - 1.
            map (\<lambda>out. n_value_blind (to_enc_note out)) tos ! j =
              fst (random_scalar ec ((after_output ec ^^ j) s))"
    proof (intro allI impI)
      fix j assume j: "j < length (outp # outs) - 1"
      show "map (\<lambda>out. n_value_blind (to_enc_note out)) tos ! j =
              fst (random_scalar ec ((after_output ec ^^ j) s))"
      proof (cases j)
        case 0
        then show ?thesis using tos nvb vb' by simp
      next
        case (Suc j')
        with j m have "j' < length outs - 1" by simp
        with others have "map (\<lambda>out. n_value_blind (to_enc_note out)) tos' ! j' =
              fst (random_scalar ec ((after_output ec ^^ j') (after_output ec s)))" by blast
        then show ?thesis using Suc tos by (simp add: funpow_swap1)
      qed
    qed
    from c1 ord c3 c4 show ?thesis by blast
  qed
qed

lemma build_Inr:
  fixes cr :: "('r, 'sg) crypto"
  assumes "build cr b s0 = Inr (tx, s')"
  obtains cis s2 ibs secs tis s3 tos s4 where
    "build_clear_inputs (tb_ec b) (fst (random_scalar (tb_ec b) s0)) (tb_clear_inputs b)
       (snd (random_scalar (tb_ec b) s0)) = (cis, s2)"
    "build_inputs cr (tb_ec b) (fst (random_scalar (tb_ec b) s0)) (tb_inputs b) s2 =
       ((ibs, secs, tis), s3)"
    "tb_outputs b \<noteq> []"
    "build_outputs cr (tb_ec b) (fst (random_scalar (tb_ec b) s0)) cis ibs
       (length (tb_outputs b)) (enumerate 0 (tb_outputs b)) [] s3 = Inr (tos, s4)"
    "tx_clear_inputs tx =
       fst (sign_clear_inputs cr (tb_ec b) ''hello'' (zip cis (tb_clear_inputs b)) s4)"
    "tx_inputs tx =
       fst (sign_inputs cr (tb_ec b) ''hello'' (zip tis secs)
              (snd (sign_clear_inputs cr (tb_ec b) ''hello'' (zip cis (tb_clear_inputs b)) s4)))"
    "tx_outputs tx = tos"
    "tx_ec tx = tb_ec b"
proof -
  obtain cis :: "'sg tx_clear_input list" and s2 where c:
    "build_clear_inputs (tb_ec b) (fst (random_scalar (tb_ec b) s0)) (tb_clear_inputs b)
       (snd (random_scalar (tb_ec b) s0)) = (cis, s2)"
    by (rule prod.exhaust)
  obtain ibs secs tis s3 where i:
    "build_inputs cr (tb_ec b) (fst (random_scalar (tb_ec b) s0)) (tb_inputs b) s2 =
       ((ibs, secs, tis), s3)"
    by (metis prod.exhaust)
  have ne: "tb_outputs b \<noteq> []"
    using assms by (auto simp: build_def Let_def split_beta split: if_splits)
  obtain tos s4 where o:
    "build_outputs cr (tb_ec b) (fst (random_scalar (tb_ec b) s0)) cis ibs
       (length (tb_outputs b)) (enumerate 0 (tb_outputs b)) [] s3 = Inr (tos, s4)"
    using assms c i ne
    by (auto simp: build_def Let_def split_beta split: if_splits sum.splits)
  have tx: "tx = \<lparr> tx_clear_inputs =
       fst (sign_clear_inputs cr (tb_ec b) ''hello'' (zip cis (tb_clear_inputs b)) s4),
      tx_inputs = fst (sign_inputs cr (tb_ec b) ''hello'' (zip tis secs)
              (snd (sign_clear_inputs cr (tb_ec b) ''hello'' (zip cis (tb_clear_inputs b)) s4))),
      tx_outputs = tos, tx_ec = tb_ec b \<rparr>"
    using assms c i ne o
    by (simp add: build_def Let_def split_beta partial_encode_def)
  show thesis
    by (rule that[OF c i ne o]) (simp_all add: tx)
qed

section \<open>Arithmetic of the commitments\<close>

text \<open>The assumptions of \<open>curve_ok\<close> as divisibility facts, the residue of a fold of
  \<open>add\<close> over a list of points, and from these the value balance of a built
  transaction: the residues of the values cancel by hypothesis, those of the blinds
  because the last blind is the remainder.\<close>

lemma curve_ok_addD:
  assumes "curve_ok ec pts lg" and "P \<in> pts" and "Q \<in> pts"
  shows "ec_add ec P Q \<in> pts \<and>
         lg (ec_add ec P Q) mod ec_order ec = (lg P + lg Q) mod ec_order ec \<and>
         (lg (ec_add ec P Q) mod ec_order ec = 0 \<longrightarrow> ec_add ec P Q = (0, 1, 0))"
proof -
  from assms(1) have "\<forall>P Q. P \<in> pts \<and> Q \<in> pts \<longrightarrow>
        ec_add ec P Q \<in> pts \<and>
        lg (ec_add ec P Q) mod ec_order ec = (lg P + lg Q) mod ec_order ec \<and>
        (lg (ec_add ec P Q) mod ec_order ec = 0 \<longrightarrow> ec_add ec P Q = (0, 1, 0))"
    unfolding curve_ok_def by (elim conjE)
  then show ?thesis using assms(2,3) by (elim allE[of _ P] allE[of _ Q] impE) simp_all
qed

lemma curve_ok_add:
  assumes "curve_ok ec pts lg" and "P \<in> pts" and "Q \<in> pts"
  shows "ec_add ec P Q \<in> pts"
    and "ec_order ec dvd lg (ec_add ec P Q) - (lg P + lg Q)"
proof -
  from curve_ok_addD[OF assms] have
    "ec_add ec P Q \<in> pts \<and>
     lg (ec_add ec P Q) mod ec_order ec = (lg P + lg Q) mod ec_order ec"
    by (elim conjE) (rule conjI)
  then show "ec_add ec P Q \<in> pts"
    and "ec_order ec dvd lg (ec_add ec P Q) - (lg P + lg Q)"
    by (simp_all only: mod_eq_dvd_iff)
qed

lemma curve_ok_multiply:
  assumes "curve_ok ec pts lg" and "P \<in> pts"
  shows "ec_multiply ec m P \<in> pts"
    and "ec_order ec dvd lg (ec_multiply ec m P) - m * lg P"
proof -
  from assms have
    "ec_multiply ec m P \<in> pts \<and>
     lg (ec_multiply ec m P) mod ec_order ec = (m * lg P) mod ec_order ec"
    unfolding curve_ok_def by blast
  then show "ec_multiply ec m P \<in> pts"
    and "ec_order ec dvd lg (ec_multiply ec m P) - m * lg P"
    by (simp_all only: mod_eq_dvd_iff)
qed

lemma curve_ok_neg:
  assumes "curve_ok ec pts lg" and "P \<in> pts"
  shows "neg_point P \<in> pts"
    and "ec_order ec dvd lg (neg_point P) + lg P"
proof -
  obtain x y z where P: "P = (x, y, z)" by (cases P)
  from assms have
    "(x, - y, z) \<in> pts \<and> lg (x, - y, z) mod ec_order ec = (- lg (x, y, z)) mod ec_order ec"
    unfolding curve_ok_def P by blast
  then have "(x, - y, z) \<in> pts" and "ec_order ec dvd lg (x, - y, z) - (- lg (x, y, z))"
    by (simp_all only: mod_eq_dvd_iff)
  then show "neg_point P \<in> pts" and "ec_order ec dvd lg (neg_point P) + lg P"
    by (simp_all add: neg_point_def P)
qed

lemma curve_ok_identity:
  assumes "curve_ok ec pts lg" and "P \<in> pts" and "Q \<in> pts"
      and "ec_order ec dvd lg (ec_add ec P Q)"
  shows "ec_add ec P Q = (0, 1, 0)"
proof -
  from curve_ok_addD[OF assms(1,2,3)] have
    "lg (ec_add ec P Q) mod ec_order ec = 0 \<longrightarrow> ec_add ec P Q = (0, 1, 0)"
    by (elim conjE)
  moreover from assms(4) have "lg (ec_add ec P Q) mod ec_order ec = 0"
    by (simp only: mod_eq_0_iff_dvd)
  ultimately show ?thesis by (rule mp)
qed

lemma curve_ok_generators:
  assumes "curve_ok ec pts lg"
  shows "(0, 1, 0) \<in> pts" and "ec_G ec \<in> pts" and "ec_H ec \<in> pts"
  using assms unfolding curve_ok_def by blast+

lemma curve_ok_pedersen:
  assumes "curve_ok ec pts lg"
  shows "pedersen_encrypt v r ec \<in> pts"
    and "ec_order ec dvd
           lg (pedersen_encrypt v r ec) - (v * lg (ec_G ec) + r * lg (ec_H ec))"
proof -
  note gen = curve_ok_generators[OF assms]
  note mG = curve_ok_multiply[OF assms gen(2), of v]
  note mH = curve_ok_multiply[OF assms gen(3), of r]
  show "pedersen_encrypt v r ec \<in> pts"
    unfolding pedersen_encrypt_def by (rule curve_ok_add(1)[OF assms mG(1) mH(1)])
  have "ec_order ec dvd
          (lg (pedersen_encrypt v r ec)
             - (lg (ec_multiply ec v (ec_G ec)) + lg (ec_multiply ec r (ec_H ec))))
          + ((lg (ec_multiply ec v (ec_G ec)) - v * lg (ec_G ec))
             + (lg (ec_multiply ec r (ec_H ec)) - r * lg (ec_H ec)))"
    unfolding pedersen_encrypt_def
    by (intro dvd_add curve_ok_add(2)[OF assms mG(1) mH(1)] mG(2) mH(2))
  then show "ec_order ec dvd
           lg (pedersen_encrypt v r ec) - (v * lg (ec_G ec) + r * lg (ec_H ec))"
    by (simp add: algebra_simps)
qed

lemma lg_identity:
  assumes "curve_ok ec pts lg"
  shows "ec_order ec dvd lg (0, 1, 0)"
proof -
  let ?Z = "ec_multiply ec 0 (ec_G ec)"
  note zm = curve_ok_multiply[OF assms curve_ok_generators(2)[OF assms], of 0]
  have z: "ec_order ec dvd lg ?Z" using zm(2) by simp
  have "ec_order ec dvd (lg (ec_add ec ?Z ?Z) - (lg ?Z + lg ?Z)) + (lg ?Z + lg ?Z)"
    by (intro dvd_add curve_ok_add(2)[OF assms zm(1) zm(1)] z)
  then have d: "ec_order ec dvd lg (ec_add ec ?Z ?Z)" by simp
  from curve_ok_identity[OF assms zm(1) zm(1) d] d show ?thesis by simp
qed

lemma foldl_add_lg:
  assumes "curve_ok ec pts lg"
  shows "t \<in> pts \<Longrightarrow> set ps \<subseteq> pts \<Longrightarrow>
         foldl (ec_add ec) t ps \<in> pts \<and>
         ec_order ec dvd lg (foldl (ec_add ec) t ps) - (lg t + sum_list (map lg ps))"
proof (induction ps arbitrary: t)
  case Nil
  then show ?case by simp
next
  case (Cons P ps)
  from Cons.prems have P: "P \<in> pts" and ps: "set ps \<subseteq> pts" by simp_all
  note a = curve_ok_add[OF assms Cons.prems(1) P]
  note ih = Cons.IH[OF a(1) ps]
  have "ec_order ec dvd
          (lg (foldl (ec_add ec) (ec_add ec t P) ps) - (lg (ec_add ec t P) + sum_list (map lg ps)))
          + (lg (ec_add ec t P) - (lg t + lg P))"
    by (intro dvd_add ih[THEN conjunct2] a(2))
  then show ?case using ih by (simp add: algebra_simps)
qed

lemma foldl_add_identity:
  assumes "curve_ok ec pts lg" and "ps \<noteq> []" and "t \<in> pts" and "set ps \<subseteq> pts"
      and "ec_order ec dvd lg t + sum_list (map lg ps)"
  shows "foldl (ec_add ec) t ps = (0, 1, 0)"
proof -
  from assms(2) obtain qs P where ps: "ps = qs @ [P]" by (metis rev_exhaust)
  from assms(4) ps have qs: "set qs \<subseteq> pts" and P: "P \<in> pts" by simp_all
  have eq: "foldl (ec_add ec) t ps = ec_add ec (foldl (ec_add ec) t qs) P" by (simp add: ps)
  note fq = foldl_add_lg[OF assms(1,3) qs]
  have "ec_order ec dvd
          (lg (foldl (ec_add ec) t ps) - (lg t + sum_list (map lg ps)))
          + (lg t + sum_list (map lg ps))"
    by (intro dvd_add foldl_add_lg[OF assms(1,3,4), THEN conjunct2] assms(5))
  then have "ec_order ec dvd lg (ec_add ec (foldl (ec_add ec) t qs) P)" by (simp add: eq)
  from curve_ok_identity[OF assms(1) fq[THEN conjunct1] P this] eq show ?thesis by simp
qed

lemma check_value_commits_alt:
  "check_value_commits tx \<longleftrightarrow>
     foldl (ec_add (tx_ec tx)) (0, 1, 0)
       (map (\<lambda>input. pedersen_encrypt (ci_value input) (ci_value_blind input) (tx_ec tx))
            (tx_clear_inputs tx)
        @ map (\<lambda>input. br_value_commit (ti_revealed input)) (tx_inputs tx)
        @ map (\<lambda>out. neg_point (mr_value_commit (to_revealed out))) (tx_outputs tx))
     = (0, 1, 0)"
  unfolding check_value_commits_def neg_point_def
  by (simp add: foldl_map Let_def)

lemma sum_list_lg_linear:
  assumes "\<forall>x \<in> set xs. (q::int) dvd f x - (a x * g + b x * h)"
  shows "q dvd sum_list (map f xs) - (sum_list (map a xs) * g + sum_list (map b xs) * h)"
  using assms
proof (induction xs)
  case Nil
  then show ?case by simp
next
  case (Cons x xs)
  have "q dvd (f x - (a x * g + b x * h))
          + (sum_list (map f xs) - (sum_list (map a xs) * g + sum_list (map b xs) * h))"
    using Cons by (intro dvd_add) auto
  then show ?case by (simp add: algebra_simps)
qed

lemma list_all2_map_eq:
  "list_all2 P xs ys \<Longrightarrow> (\<And>x y. P x y \<Longrightarrow> f x = g y) \<Longrightarrow> map f xs = map g ys"
  by (induction rule: list_all2_induct) auto

lemma list_all2_right:
  "list_all2 P xs ys \<Longrightarrow> y \<in> set ys \<Longrightarrow> \<exists>x \<in> set xs. P x y"
  by (induction rule: list_all2_induct) auto

lemma sum_list_last_split:
  "xs \<noteq> [] \<Longrightarrow> sum_list xs = sum_list (take (length xs - 1) xs) + (xs ! (length xs - 1) :: int)"
proof -
  assume ne: "xs \<noteq> []"
  then have "xs = butlast xs @ [last xs]" by simp
  then have "sum_list xs = sum_list (butlast xs) + last xs"
    by (metis sum_list.Cons sum_list.Nil sum_list_append add.right_neutral)
  then show ?thesis using ne by (simp add: butlast_conv_take last_conv_nth)
qed

lemma signed_clear_map:
  assumes "length cis = length specs" and "\<And>ci sg. f (ci\<lparr>ci_signature := sg\<rparr>) = f ci"
  shows "map f (fst (sign_clear_inputs cr ec d (zip cis specs) s)) = map f cis"
  using sign_clear_inputs_map[of f cr ec d "zip cis specs" s] assms by simp

lemma signed_inputs_map:
  assumes "length tis = length secs" and "\<And>ti sg. f (ti\<lparr>ti_signature := sg\<rparr>) = f ti"
  shows "map f (fst (sign_inputs cr ec d (zip tis secs) s)) = map f tis"
  using sign_inputs_map[of f cr ec d "zip tis secs" s] assms by simp

lemma build_value_balance:
  fixes cr :: "('r, 'sg) crypto"
  assumes ok: "curve_ok (tb_ec b) pts lg"
      and bld: "build cr b s0 = Inr (tx, s')"
      and bal: "ec_order (tb_ec b) dvd
                  sum_list (map cs_value (tb_clear_inputs b))
                  + sum_list (map (\<lambda>input. n_value (is_note input)) (tb_inputs b))
                  - sum_list (map os_value (tb_outputs b))"
  shows "check_value_commits tx"
proof -
  define ec where "ec = tb_ec b"
  define q where "q = ec_order ec"
  define g where "g = lg (ec_G ec)"
  define h where "h = lg (ec_H ec)"
  define tb where "tb = fst (random_scalar ec s0)"
  note ok' = ok[folded ec_def]
  from build_Inr[OF bld, folded ec_def, folded tb_def]
  obtain cis :: "'sg tx_clear_input list" and s2 ibs secs tis s3 tos s4 where
    c: "build_clear_inputs ec tb (tb_clear_inputs b) (snd (random_scalar ec s0)) = (cis, s2)" and
    i: "build_inputs cr ec tb (tb_inputs b) s2 = ((ibs, secs, tis), s3)" and
    ne: "tb_outputs b \<noteq> []" and
    o: "build_outputs cr ec tb cis ibs (length (tb_outputs b)) (enumerate 0 (tb_outputs b)) [] s3
          = Inr (tos, s4)" and
    txc: "tx_clear_inputs tx =
            fst (sign_clear_inputs cr ec ''hello'' (zip cis (tb_clear_inputs b)) s4)" and
    txi: "tx_inputs tx =
            fst (sign_inputs cr ec ''hello'' (zip tis secs)
              (snd (sign_clear_inputs cr ec ''hello'' (zip cis (tb_clear_inputs b)) s4)))" and
    txo: "tx_outputs tx = tos" and txe: "tx_ec tx = ec"
    by metis
  have cb: "list_all2 (clear_built ec tb) (tb_clear_inputs b) cis"
    by (rule build_clear_inputs_built[OF c])
  then have clen: "length cis = length (tb_clear_inputs b)" by (simp add: list_all2_lengthD)
  from build_inputs_built[OF i]
  have ibs: "ibs = map (\<lambda>input. n_value_blind (is_note input)) (tb_inputs b)"
    and slen: "length secs = length (tb_inputs b)"
    and ib: "list_all2 (input_built cr ec tb) (tb_inputs b) tis"
    by blast+
  from ib slen have ilen: "length tis = length secs" by (simp add: list_all2_lengthD)
  have ob: "list_all2 (output_built cr ec tb) (tb_outputs b) tos"
    using build_outputs_built[OF o] by (simp add: enumerate_eq_zip)
  define Cs where "Cs = map (\<lambda>input. pedersen_encrypt (ci_value input) (ci_value_blind input) ec) cis"
  define Is where "Is = map (\<lambda>input. br_value_commit (ti_revealed input)) tis"
  define Ns where "Ns = map (\<lambda>out. neg_point (mr_value_commit (to_revealed out))) tos"
  define blinds where "blinds = map (\<lambda>out. n_value_blind (to_enc_note out)) tos"
  have C: "map (\<lambda>input. pedersen_encrypt (ci_value input) (ci_value_blind input) ec)
             (tx_clear_inputs tx) = Cs"
    unfolding txc Cs_def by (rule signed_clear_map[OF clen]) simp
  have I: "map (\<lambda>input. br_value_commit (ti_revealed input)) (tx_inputs tx) = Is"
    unfolding txi Is_def by (rule signed_inputs_map[OF ilen]) simp
  have alt: "check_value_commits tx \<longleftrightarrow> foldl (ec_add ec) (0, 1, 0) (Cs @ Is @ Ns) = (0, 1, 0)"
    unfolding check_value_commits_alt txe C I by (simp add: Ns_def txo)
  have "tos \<noteq> []" using ob ne by auto
  then have nonempty: "Cs @ Is @ Ns \<noteq> []" by (simp add: Ns_def)
  have ivc: "br_value_commit (ti_revealed ti) =
               pedersen_encrypt (bp_value (ti_burn_proof ti)) (bp_value_blind (ti_burn_proof ti)) ec"
    if "ti \<in> set tis" for ti
    using list_all2_right[OF ib that]
    by (auto simp: input_built_def Let_def burn_get_revealed_def)
  have ovc: "mr_value_commit (to_revealed out) =
               pedersen_encrypt (mp_value (to_mint_proof out)) (mp_value_blind (to_mint_proof out)) ec"
    if "out \<in> set tos" for out
    using list_all2_right[OF ob that]
    by (auto simp: output_built_def Let_def mint_get_revealed_def)
  have inC: "set Cs \<subseteq> pts"
    unfolding Cs_def using curve_ok_pedersen(1)[OF ok'] by auto
  have inI: "set Is \<subseteq> pts"
    unfolding Is_def using curve_ok_pedersen(1)[OF ok'] ivc by auto
  have inN: "set Ns \<subseteq> pts"
    unfolding Ns_def using curve_ok_neg(1)[OF ok' curve_ok_pedersen(1)[OF ok']] ovc by auto
  have d1: "q dvd sum_list (map lg Cs)
              - (sum_list (map ci_value cis) * g + sum_list (map ci_value_blind cis) * h)"
    unfolding Cs_def map_map comp_def q_def g_def h_def
    by (rule sum_list_lg_linear) (simp add: curve_ok_pedersen(2)[OF ok'])
  have d2: "q dvd sum_list (map lg Is)
              - (sum_list (map (\<lambda>ti. bp_value (ti_burn_proof ti)) tis) * g
                 + sum_list (map (\<lambda>ti. bp_value_blind (ti_burn_proof ti)) tis) * h)"
    unfolding Is_def map_map comp_def
  proof (rule sum_list_lg_linear, rule ballI)
    fix ti assume "ti \<in> set tis"
    then show "q dvd lg (br_value_commit (ti_revealed ti))
                 - (bp_value (ti_burn_proof ti) * g + bp_value_blind (ti_burn_proof ti) * h)"
      unfolding q_def g_def h_def by (simp add: ivc curve_ok_pedersen(2)[OF ok'])
  qed
  have d3: "q dvd sum_list (map lg Ns)
              - (sum_list (map (\<lambda>out. mp_value (to_mint_proof out)) tos) * (- g)
                 + sum_list (map (\<lambda>out. mp_value_blind (to_mint_proof out)) tos) * (- h))"
    unfolding Ns_def map_map comp_def
  proof (rule sum_list_lg_linear, rule ballI)
    fix out assume "out \<in> set tos"
    note pd = curve_ok_pedersen[OF ok', of "mp_value (to_mint_proof out)"
                "mp_value_blind (to_mint_proof out)", folded ovc[OF \<open>out \<in> set tos\<close>]]
    have "q dvd (lg (neg_point (mr_value_commit (to_revealed out)))
                   + lg (mr_value_commit (to_revealed out)))
                - (lg (mr_value_commit (to_revealed out))
                   - (mp_value (to_mint_proof out) * g + mp_value_blind (to_mint_proof out) * h))"
      unfolding q_def g_def h_def
      by (intro dvd_diff curve_ok_neg(2)[OF ok' pd(1)] pd(2))
    then show "q dvd lg (neg_point (mr_value_commit (to_revealed out)))
                 - (mp_value (to_mint_proof out) * - g + mp_value_blind (to_mint_proof out) * - h)"
      by (simp add: algebra_simps)
  qed
  have vc: "sum_list (map ci_value cis) = sum_list (map cs_value (tb_clear_inputs b))"
    using list_all2_map_eq[OF cb, of cs_value ci_value] by (simp add: clear_built_def)
  have vi: "sum_list (map (\<lambda>ti. bp_value (ti_burn_proof ti)) tis)
              = sum_list (map (\<lambda>input. n_value (is_note input)) (tb_inputs b))"
    using list_all2_map_eq[OF ib, of "\<lambda>input. n_value (is_note input)"
            "\<lambda>ti. bp_value (ti_burn_proof ti)"]
    by (simp add: input_built_def Let_def)
  have ri: "sum_list (map (\<lambda>ti. bp_value_blind (ti_burn_proof ti)) tis) = sum_list ibs"
    unfolding ibs
    using list_all2_map_eq[OF ib, of "\<lambda>input. n_value_blind (is_note input)"
            "\<lambda>ti. bp_value_blind (ti_burn_proof ti)"]
    by (simp add: input_built_def Let_def)
  have vo: "sum_list (map (\<lambda>out. mp_value (to_mint_proof out)) tos)
              = sum_list (map os_value (tb_outputs b))"
    using list_all2_map_eq[OF ob, of os_value "\<lambda>out. mp_value (to_mint_proof out)"]
    by (simp add: output_built_def Let_def)
  have ro: "sum_list (map (\<lambda>out. mp_value_blind (to_mint_proof out)) tos) = sum_list blinds"
  proof -
    have "mp_value_blind (to_mint_proof out) = n_value_blind (to_enc_note out)"
      if "out \<in> set tos" for out
      using list_all2_right[OF ob that] by (auto simp: output_built_def Let_def)
    then show ?thesis unfolding blinds_def by (simp cong: map_cong)
  qed
  from build_outputs_blinds[OF o _ ne]
  have len: "length tos = length (tb_outputs b)"
    and lastb: "blinds ! (length (tb_outputs b) - 1) =
           (sum_list (map ci_value_blind cis) + sum_list ibs
              - (sum_list [] + sum_list (take (length (tb_outputs b) - 1) blinds))) mod q"
    unfolding blinds_def q_def by simp_all
  have bne: "blinds \<noteq> []" and blen: "length blinds = length (tb_outputs b)"
    using len ne by (auto simp: blinds_def)
  have "sum_list blinds = sum_list (take (length blinds - 1) blinds) + blinds ! (length blinds - 1)"
    by (rule sum_list_last_split[OF bne])
  with lastb blen have "sum_list (map ci_value_blind cis) + sum_list ibs - sum_list blinds =
      (sum_list (map ci_value_blind cis) + sum_list ibs
         - sum_list (take (length blinds - 1) blinds))
      - (sum_list (map ci_value_blind cis) + sum_list ibs
         - sum_list (take (length blinds - 1) blinds)) mod q"
    by simp
  then have d6: "q dvd sum_list (map ci_value_blind cis) + sum_list ibs - sum_list blinds"
    by (simp only: dvd_minus_mod)
  have d5: "q dvd sum_list (map cs_value (tb_clear_inputs b))
                  + sum_list (map (\<lambda>input. n_value (is_note input)) (tb_inputs b))
                  - sum_list (map os_value (tb_outputs b))"
    using bal by (simp add: q_def ec_def)
  have d4: "q dvd lg (0, 1, 0)" unfolding q_def by (rule lg_identity[OF ok'])
  have "q dvd lg (0, 1, 0)
          + ((sum_list (map lg Cs)
              - (sum_list (map cs_value (tb_clear_inputs b)) * g
                 + sum_list (map ci_value_blind cis) * h))
           + (sum_list (map lg Is)
              - (sum_list (map (\<lambda>input. n_value (is_note input)) (tb_inputs b)) * g
                 + sum_list ibs * h))
           + (sum_list (map lg Ns)
              - (sum_list (map os_value (tb_outputs b)) * (- g) + sum_list blinds * (- h)))
           + (sum_list (map cs_value (tb_clear_inputs b))
                  + sum_list (map (\<lambda>input. n_value (is_note input)) (tb_inputs b))
                  - sum_list (map os_value (tb_outputs b))) * g
           + (sum_list (map ci_value_blind cis) + sum_list ibs - sum_list blinds) * h)"
    using d1 d2 d3 d4 d5 d6 unfolding vc vi ri vo ro
    by (intro dvd_add dvd_mult2)
  then have "q dvd lg (0, 1, 0) + sum_list (map lg (Cs @ Is @ Ns))"
    by (simp add: algebra_simps)
  moreover have "set (Cs @ Is @ Ns) \<subseteq> pts" using inC inI inN by simp
  ultimately show ?thesis
    using foldl_add_identity[OF ok' nonempty curve_ok_generators(1)[OF ok']] alt
    by (simp add: q_def)
qed

section \<open>The gates on a built transaction\<close>

text \<open>The loops of the verifier as statements about all elements of a list, and the
  token, proof and signature gates on the result of \<open>build\<close>.\<close>

lemma token_clear_inputs_iff:
  "token_clear_inputs ec T cis \<longleftrightarrow>
     (\<forall>v \<in> set (map (\<lambda>ci. pedersen_encrypt (ci_token_id ci) (ci_token_blind ci) ec) cis). v = T)"
  by (induction cis) (auto simp: Let_def)

lemma token_inputs_iff:
  "token_inputs T tis \<longleftrightarrow>
     (\<forall>v \<in> set (map (\<lambda>ti. br_token_commit (ti_revealed ti)) tis). v = T)"
  by (induction tis) auto

lemma token_outputs_iff:
  "token_outputs T tos \<longleftrightarrow> (\<forall>out \<in> set tos. mr_token_commit (to_revealed out) = T)"
  by (induction tos) auto

lemma check_burn_proofs_iff:
  "check_burn_proofs cr tis \<longleftrightarrow>
     (\<forall>v \<in> set (map (\<lambda>ti. burn_verify cr (ti_burn_proof ti) (ti_revealed ti)) tis). v)"
  by (induction tis) auto

lemma check_mint_proofs_iff:
  "check_mint_proofs cr tos \<longleftrightarrow>
     (\<forall>out \<in> set tos. mint_verify cr (to_mint_proof out) (to_revealed out))"
  by (induction tos) auto

lemma list_all2_zip:
  "list_all2 P xs ys \<Longrightarrow> \<forall>(y, x) \<in> set (zip ys xs). P x y"
  by (induction rule: list_all2_induct) auto

lemma zip_map_snd: "(x, y) \<in> set (zip xs (map f xs)) \<Longrightarrow> y = f x"
  by (induction xs) auto

lemma build_token_commits:
  fixes cr :: "('r, 'sg) crypto"
  assumes bld: "build cr b s0 = Inr (tx, s')"
      and tc: "\<forall>input \<in> set (tb_clear_inputs b). cs_token_id input = t"
      and ti: "\<forall>input \<in> set (tb_inputs b). n_token_id (is_note input) = t"
      and tout: "\<forall>outp \<in> set (tb_outputs b). os_token_id outp = t"
  shows "tx_outputs tx \<noteq> [] \<and>
         (\<forall>v \<in> set (map (\<lambda>ci. pedersen_encrypt (ci_token_id ci) (ci_token_blind ci) (tx_ec tx))
                          (tx_clear_inputs tx)).
            v = pedersen_encrypt t (fst (random_scalar (tb_ec b) s0)) (tb_ec b)) \<and>
         (\<forall>v \<in> set (map (\<lambda>ti. br_token_commit (ti_revealed ti)) (tx_inputs tx)).
            v = pedersen_encrypt t (fst (random_scalar (tb_ec b) s0)) (tb_ec b)) \<and>
         (\<forall>out \<in> set (tx_outputs tx).
            mr_token_commit (to_revealed out) =
              pedersen_encrypt t (fst (random_scalar (tb_ec b) s0)) (tb_ec b))"
proof -
  define ec where "ec = tb_ec b"
  define tb where "tb = fst (random_scalar ec s0)"
  from build_Inr[OF bld, folded ec_def, folded tb_def]
  obtain cis :: "'sg tx_clear_input list" and s2 ibs secs tis s3 tos s4 where
    c: "build_clear_inputs ec tb (tb_clear_inputs b) (snd (random_scalar ec s0)) = (cis, s2)" and
    i: "build_inputs cr ec tb (tb_inputs b) s2 = ((ibs, secs, tis), s3)" and
    ne: "tb_outputs b \<noteq> []" and
    o: "build_outputs cr ec tb cis ibs (length (tb_outputs b)) (enumerate 0 (tb_outputs b)) [] s3
          = Inr (tos, s4)" and
    txc: "tx_clear_inputs tx =
            fst (sign_clear_inputs cr ec ''hello'' (zip cis (tb_clear_inputs b)) s4)" and
    txi: "tx_inputs tx =
            fst (sign_inputs cr ec ''hello'' (zip tis secs)
              (snd (sign_clear_inputs cr ec ''hello'' (zip cis (tb_clear_inputs b)) s4)))" and
    txo: "tx_outputs tx = tos" and txe: "tx_ec tx = ec"
    by metis
  have cb: "list_all2 (clear_built ec tb) (tb_clear_inputs b) cis"
    by (rule build_clear_inputs_built[OF c])
  then have clen: "length cis = length (tb_clear_inputs b)" by (simp add: list_all2_lengthD)
  from build_inputs_built[OF i]
  have slen: "length secs = length (tb_inputs b)"
    and ib: "list_all2 (input_built cr ec tb) (tb_inputs b) tis"
    by blast+
  from ib slen have ilen: "length tis = length secs" by (simp add: list_all2_lengthD)
  have ob: "list_all2 (output_built cr ec tb) (tb_outputs b) tos"
    using build_outputs_built[OF o] by (simp add: enumerate_eq_zip)
  have p1: "tx_outputs tx \<noteq> []" using ob ne txo by auto
  have "map (\<lambda>ci. pedersen_encrypt (ci_token_id ci) (ci_token_blind ci) ec) (tx_clear_inputs tx)
          = map (\<lambda>ci. pedersen_encrypt (ci_token_id ci) (ci_token_blind ci) ec) cis"
    unfolding txc by (rule signed_clear_map[OF clen]) simp
  moreover have "pedersen_encrypt (ci_token_id ci) (ci_token_blind ci) ec = pedersen_encrypt t tb ec"
    if "ci \<in> set cis" for ci
    using list_all2_right[OF cb that] tc by (auto simp: clear_built_def)
  ultimately have p2: "\<forall>v \<in> set (map (\<lambda>ci. pedersen_encrypt (ci_token_id ci) (ci_token_blind ci) ec)
                          (tx_clear_inputs tx)). v = pedersen_encrypt t tb ec"
    by auto
  have "map (\<lambda>ti. br_token_commit (ti_revealed ti)) (tx_inputs tx)
          = map (\<lambda>ti. br_token_commit (ti_revealed ti)) tis"
    unfolding txi by (rule signed_inputs_map[OF ilen]) simp
  moreover have "br_token_commit (ti_revealed x) = pedersen_encrypt t tb ec"
    if "x \<in> set tis" for x
    using list_all2_right[OF ib that] ti
    by (auto simp: input_built_def Let_def burn_get_revealed_def)
  ultimately have p3: "\<forall>v \<in> set (map (\<lambda>ti. br_token_commit (ti_revealed ti)) (tx_inputs tx)).
                         v = pedersen_encrypt t tb ec"
    by auto
  have p4: "\<forall>out \<in> set (tx_outputs tx). mr_token_commit (to_revealed out) = pedersen_encrypt t tb ec"
  proof
    fix out assume "out \<in> set (tx_outputs tx)"
    then have "out \<in> set tos" by (simp add: txo)
    from list_all2_right[OF ob this] tout
    show "mr_token_commit (to_revealed out) = pedersen_encrypt t tb ec"
      by (auto simp: output_built_def Let_def mint_get_revealed_def)
  qed
  from p1 p2 p3 p4 show ?thesis unfolding txe tb_def ec_def by blast
qed

lemma build_verify_token_commitments:
  fixes cr :: "('r, 'sg) crypto"
  assumes bld: "build cr b s0 = Inr (tx, s')"
      and tc: "\<forall>input \<in> set (tb_clear_inputs b). cs_token_id input = t"
      and ti: "\<forall>input \<in> set (tb_inputs b). n_token_id (is_note input) = t"
      and tout: "\<forall>outp \<in> set (tb_outputs b). os_token_id outp = t"
  shows "verify_token_commitments tx = Inr True"
proof -
  note f = build_token_commits[OF bld tc ti tout]
  from f obtain out rest where outs: "tx_outputs tx = out # rest"
    by (cases "tx_outputs tx") auto
  with f have anchor: "mr_token_commit (to_revealed out) =
                 pedersen_encrypt t (fst (random_scalar (tb_ec b) s0)) (tb_ec b)"
    by simp
  have "token_clear_inputs (tx_ec tx) (mr_token_commit (to_revealed out)) (tx_clear_inputs tx)"
    and "token_inputs (mr_token_commit (to_revealed out)) (tx_inputs tx)"
    and "token_outputs (mr_token_commit (to_revealed out)) (tx_outputs tx)"
    unfolding anchor token_clear_inputs_iff token_inputs_iff token_outputs_iff
    using f by blast+
  then show ?thesis
    by (simp add: verify_token_commitments_def outs[symmetric]) (simp add: outs)
qed

lemma build_check_proofs:
  fixes cr :: "('r, 'sg) crypto"
  assumes bld: "build cr b s0 = Inr (tx, s')"
      and mem: "\<forall>input \<in> set (tb_inputs b). input_coin cr (tb_ec b) input \<in> is_all_coins input"
  shows "check_proofs cr tx"
proof -
  define ec where "ec = tb_ec b"
  define tb where "tb = fst (random_scalar ec s0)"
  from build_Inr[OF bld, folded ec_def, folded tb_def]
  obtain cis :: "'sg tx_clear_input list" and s2 ibs secs tis s3 tos s4 where
    i: "build_inputs cr ec tb (tb_inputs b) s2 = ((ibs, secs, tis), s3)" and
    o: "build_outputs cr ec tb cis ibs (length (tb_outputs b)) (enumerate 0 (tb_outputs b)) [] s3
          = Inr (tos, s4)" and
    txi: "tx_inputs tx =
            fst (sign_inputs cr ec ''hello'' (zip tis secs)
              (snd (sign_clear_inputs cr ec ''hello'' (zip cis (tb_clear_inputs b)) s4)))" and
    txo: "tx_outputs tx = tos"
    by metis
  from build_inputs_built[OF i]
  have slen: "length secs = length (tb_inputs b)"
    and ib: "list_all2 (input_built cr ec tb) (tb_inputs b) tis"
    by blast+
  from ib slen have ilen: "length tis = length secs" by (simp add: list_all2_lengthD)
  have ob: "list_all2 (output_built cr ec tb) (tb_outputs b) tos"
    using build_outputs_built[OF o] by (simp add: enumerate_eq_zip)
  have "map (\<lambda>ti. burn_verify cr (ti_burn_proof ti) (ti_revealed ti)) (tx_inputs tx)
          = map (\<lambda>ti. burn_verify cr (ti_burn_proof ti) (ti_revealed ti)) tis"
    unfolding txi by (rule signed_inputs_map[OF ilen]) simp
  moreover have "burn_verify cr (ti_burn_proof x) (ti_revealed x)" if "x \<in> set tis" for x
  proof -
    from list_all2_right[OF ib that] obtain sp where
      sp: "sp \<in> set (tb_inputs b)" and built: "input_built cr ec tb sp x" by blast
    from built have "burn_coin cr (ti_burn_proof x) = input_coin cr ec sp"
      by (simp add: input_built_def Let_def burn_coin_def input_coin_def)
    with mem sp built show ?thesis
      by (simp add: burn_verify_def Let_def input_built_def ec_def)
  qed
  ultimately have burn: "check_burn_proofs cr (tx_inputs tx)"
    unfolding check_burn_proofs_iff by auto
  have mint: "check_mint_proofs cr (tx_outputs tx)"
    unfolding check_mint_proofs_iff txo
  proof
    fix out assume "out \<in> set tos"
    from list_all2_right[OF ob this]
    show "mint_verify cr (to_mint_proof out) (to_revealed out)"
      by (auto simp: output_built_def Let_def mint_verify_def)
  qed
  from burn mint show ?thesis by (simp add: check_proofs_def)
qed

lemma build_signatures:
  fixes cr :: "('r, 'sg) crypto"
  assumes bld: "build cr b s0 = Inr (tx, s')"
      and sig: "signature_ok cr (tb_ec b)"
  shows "verify_clear_signatures cr (tx_ec tx) (partial_encode tx) (tx_clear_inputs tx) = Inr True \<and>
         verify_input_signatures cr (tx_ec tx) (partial_encode tx) (tx_inputs tx) = Inr True"
proof -
  define ec where "ec = tb_ec b"
  define tb where "tb = fst (random_scalar ec s0)"
  from build_Inr[OF bld, folded ec_def, folded tb_def]
  obtain cis :: "'sg tx_clear_input list" and s2 ibs secs tis s3 tos s4 where
    c: "build_clear_inputs ec tb (tb_clear_inputs b) (snd (random_scalar ec s0)) = (cis, s2)" and
    i: "build_inputs cr ec tb (tb_inputs b) s2 = ((ibs, secs, tis), s3)" and
    txc: "tx_clear_inputs tx =
            fst (sign_clear_inputs cr ec ''hello'' (zip cis (tb_clear_inputs b)) s4)" and
    txi: "tx_inputs tx =
            fst (sign_inputs cr ec ''hello'' (zip tis secs)
              (snd (sign_clear_inputs cr ec ''hello'' (zip cis (tb_clear_inputs b)) s4)))" and
    txe: "tx_ec tx = ec"
    by metis
  have cb: "list_all2 (clear_built ec tb) (tb_clear_inputs b) cis"
    by (rule build_clear_inputs_built[OF c])
  from build_inputs_built[OF i]
  have secs: "map (\<lambda>ti. bp_signature_secret (ti_burn_proof ti)) tis = secs"
    and ib: "list_all2 (input_built cr ec tb) (tb_inputs b) tis"
    by blast+
  have pc: "\<forall>(ci, info) \<in> set (zip cis (tb_clear_inputs b)).
              ci_signature_public ci = ec_multiply ec (cs_signature_secret info) (ec_G ec)"
    using list_all2_zip[OF cb] by (auto simp: clear_built_def)
  have pi: "\<forall>(ti, sec) \<in> set (zip tis secs).
              br_signature_public (ti_revealed ti) = ec_multiply ec sec (ec_G ec)"
  proof (clarify)
    fix x sec assume z: "(x, sec) \<in> set (zip tis secs)"
    then have "x \<in> set tis" by (rule set_zip_leftD)
    from list_all2_right[OF ib this] have
      r: "br_signature_public (ti_revealed x) =
            ec_multiply ec (bp_signature_secret (ti_burn_proof x)) (ec_G ec)"
      by (auto simp: input_built_def Let_def burn_get_revealed_def)
    from z have "sec = bp_signature_secret (ti_burn_proof x)"
      unfolding secs[symmetric] by (rule zip_map_snd)
    with r show "br_signature_public (ti_revealed x) = ec_multiply ec sec (ec_G ec)" by simp
  qed
  show ?thesis
    unfolding txe partial_encode_def txc txi
    using sign_clear_inputs_verify[OF sig[folded ec_def] pc]
      sign_inputs_verify[OF sig[folded ec_def] pi]
    by simp
qed

lemma mint_self_verify: "mint_verify cr mp (mint_get_revealed cr mp)"
  by (simp add: mint_verify_def Let_def)

lemma build_outputs_succeeds:
  assumes "ec_order ec \<noteq> 0"
  shows "\<exists>tos s'. build_outputs cr ec tb cis ib n eos acc s = Inr (tos, s')"
proof (induction eos arbitrary: acc s)
  case Nil
  then show ?case by simp
next
  case (Cons eo eos)
  obtain i outp where eo: "eo = (i, outp)" by (cases eo)
  define vb where "vb = (if int i = int n - 1
      then (sum_list (map ci_value_blind cis) + sum_list ib - sum_list acc) mod ec_order ec
      else fst (random_scalar ec s))"
  define s1 where "s1 = (if int i = int n - 1 then s else snd (random_scalar ec s))"
  have vb: "(if int i = int n - 1
      then (case compute_remainder_blind ec cis ib acc of
              Inl e \<Rightarrow> Inl e | Inr value_blind \<Rightarrow> Inr (value_blind, s))
      else Inr (random_scalar ec s)) = Inr (vb, s1)"
    using assms by (simp add: compute_remainder_blind_def Let_def vb_def s1_def)
  from Cons.IH[of "acc @ [vb]" "snd (random_base ec (snd (random_base ec s1)))"]
  obtain tos s' where
    "build_outputs cr ec tb cis ib n eos (acc @ [vb])
       (snd (random_base ec (snd (random_base ec s1)))) = Inr (tos, s')"
    by blast
  then show ?case
    unfolding eo build_outputs.simps vb
    by (simp add: Let_def split_beta mint_self_verify)
qed

lemma build_succeeds:
  fixes cr :: "('r, 'sg) crypto"
  assumes "tb_outputs b \<noteq> []" and "ec_order (tb_ec b) \<noteq> 0"
  shows "\<exists>tx s'. build cr b s0 = Inr (tx, s')"
proof -
  obtain cis :: "'sg tx_clear_input list" and s2 where c:
    "build_clear_inputs (tb_ec b) (fst (random_scalar (tb_ec b) s0)) (tb_clear_inputs b)
       (snd (random_scalar (tb_ec b) s0)) = (cis, s2)"
    by (rule prod.exhaust)
  obtain ibs secs tis s3 where i:
    "build_inputs cr (tb_ec b) (fst (random_scalar (tb_ec b) s0)) (tb_inputs b) s2 =
       ((ibs, secs, tis), s3)"
    by (metis prod.exhaust)
  obtain tos s4 where o:
    "build_outputs cr (tb_ec b) (fst (random_scalar (tb_ec b) s0)) cis ibs
       (length (tb_outputs b)) (enumerate 0 (tb_outputs b)) [] s3 = Inr (tos, s4)"
    using build_outputs_succeeds[OF assms(2)] by blast
  show ?thesis using assms(1) c i o
    by (simp add: build_def Let_def split_beta)
qed

lemma build_verify:
  fixes cr :: "('r, 'sg) crypto"
  assumes bld: "build cr b s0 = Inr (tx, s')"
      and ok: "curve_ok (tb_ec b) pts lg"
      and sig: "signature_ok cr (tb_ec b)"
      and mem: "\<forall>input \<in> set (tb_inputs b). input_coin cr (tb_ec b) input \<in> is_all_coins input"
      and tc: "\<forall>input \<in> set (tb_clear_inputs b). cs_token_id input = t"
      and ti: "\<forall>input \<in> set (tb_inputs b). n_token_id (is_note input) = t"
      and tout: "\<forall>outp \<in> set (tb_outputs b). os_token_id outp = t"
      and bal: "ec_order (tb_ec b) dvd
                  sum_list (map cs_value (tb_clear_inputs b))
                  + sum_list (map (\<lambda>input. n_value (is_note input)) (tb_inputs b))
                  - sum_list (map os_value (tb_outputs b))"
  shows "tx_verify cr tx = Inr (Pair_result True None)"
  using build_value_balance[OF ok bld bal] build_check_proofs[OF bld mem]
    build_verify_token_commitments[OF bld tc ti tout] build_signatures[OF bld sig]
  by (simp add: tx_verify_def Let_def)

section \<open>The small instance meets the assumptions\<close>

lemma demo_curve_ok: "curve_ok demo_curve UNIV demo_lg"
  unfolding curve_ok_def
  by (simp add: demo_curve_def demo_lg_def demo_point_def mod_simps)

lemma demo_signature_ok: "signature_ok demo_crypto demo_curve"
  by (simp add: signature_ok_def demo_crypto_def)

lemmas demo_defs = demo_lg_def demo_point_def demo_curve_def demo_crypto_def demo_note_def
  Let_def pedersen_encrypt_def compute_remainder_blind_def
  mint_verify_def mint_get_revealed_def burn_get_revealed_def burn_verify_def burn_coin_def
  partial_encode_def build_def enumerate_eq_zip

lemma demo_build: "build demo_crypto demo_builder 0 = Inr (demo_tx, 8)"
  by (simp add: demo_defs demo_builder_def demo_tx_def)

section \<open>The claims\<close>

text \<open>
  Claim C1 (round trip). Let the curve meet \<open>curve_ok\<close> and the signature primitive
  \<open>signature_ok\<close>. If the builder has at least one output, the coin of every shielded
  input is in that input's coin set, all clear inputs, notes and outputs carry the same
  token id, and the values of the clear inputs and of the notes add up to the values of the
  outputs, then \<open>build\<close> returns a transaction and \<open>verify\<close> on it returns the pair
  \<open>(True, None)\<close>.
\<close>

theorem build_verify_round_trip:
  fixes cr :: "('r, 'sg) crypto"
  assumes "curve_ok (tb_ec b) pts lg"
      and "signature_ok cr (tb_ec b)"
      and "tb_outputs b \<noteq> []"
      and "\<forall>input \<in> set (tb_inputs b). input_coin cr (tb_ec b) input \<in> is_all_coins input"
      and "\<forall>input \<in> set (tb_clear_inputs b). cs_token_id input = t"
      and "\<forall>input \<in> set (tb_inputs b). n_token_id (is_note input) = t"
      and "\<forall>outp \<in> set (tb_outputs b). os_token_id outp = t"
      and "sum_list (map cs_value (tb_clear_inputs b))
             + sum_list (map (\<lambda>input. n_value (is_note input)) (tb_inputs b))
           = sum_list (map os_value (tb_outputs b))"
  shows "\<exists>tx s'. build cr b s0 = Inr (tx, s') \<and> tx_verify cr tx = Inr (Pair_result True None)"
proof -
  from assms(1) have "ec_order (tb_ec b) \<noteq> 0" by (simp add: curve_ok_def)
  from build_succeeds[OF assms(3) this] obtain tx s' where bld: "build cr b s0 = Inr (tx, s')"
    by blast
  have bal: "ec_order (tb_ec b) dvd
                  sum_list (map cs_value (tb_clear_inputs b))
                  + sum_list (map (\<lambda>input. n_value (is_note input)) (tb_inputs b))
                  - sum_list (map os_value (tb_outputs b))"
    using assms(8) by simp
  from build_verify[OF bld assms(1,2,4,5,6,7) bal] bld show ?thesis by blast
qed

theorem build_verify_round_trip_witness:
  "build demo_crypto demo_builder 0 = Inr (demo_tx, 8) \<and>
   tx_verify demo_crypto demo_tx = Inr (Pair_result True None)"
proof -
  have e: "tb_ec demo_builder = demo_curve" by (simp add: demo_builder_def)
  have h1: "curve_ok (tb_ec demo_builder) UNIV demo_lg" unfolding e by (rule demo_curve_ok)
  have h2: "signature_ok demo_crypto (tb_ec demo_builder)" unfolding e by (rule demo_signature_ok)
  have h3: "tb_outputs demo_builder \<noteq> []" by (simp add: demo_builder_def)
  have h4: "\<forall>input \<in> set (tb_inputs demo_builder).
              input_coin demo_crypto (tb_ec demo_builder) input \<in> is_all_coins input"
    by (simp add: demo_builder_def input_coin_def demo_defs)
  have h5: "\<forall>input \<in> set (tb_clear_inputs demo_builder). cs_token_id input = 2"
    by (simp add: demo_builder_def)
  have h6: "\<forall>input \<in> set (tb_inputs demo_builder). n_token_id (is_note input) = 2"
    by (simp add: demo_builder_def demo_note_def)
  have h7: "\<forall>outp \<in> set (tb_outputs demo_builder). os_token_id outp = 2"
    by (simp add: demo_builder_def)
  have h8: "sum_list (map cs_value (tb_clear_inputs demo_builder))
             + sum_list (map (\<lambda>input. n_value (is_note input)) (tb_inputs demo_builder))
           = sum_list (map os_value (tb_outputs demo_builder))"
    by (simp add: demo_builder_def demo_note_def)
  from build_verify_round_trip[OF h1 h2 h3 h4 h5 h6 h7 h8, of 0]
  show ?thesis by (simp add: demo_build)
qed

text \<open>
  Claim C2 (value balance), as amended. \<open>build\<close> balances the blinds and never looks at
  the values, so the balance of the commitments needs the balance of the values as a
  hypothesis: if the curve meets \<open>curve_ok\<close> and the values of the clear inputs and of
  the notes are congruent, modulo the scalar-field order, to the values of the outputs,
  then \<open>_check_value_commits\<close> holds of the transaction that \<open>build\<close> returns, that is,
  the clear inputs' commitments plus the shielded inputs' revealed commitments plus the
  negated revealed commitments of the outputs add up to \<open>(0, 1, 0)\<close>.
\<close>

theorem build_value_commits_balance:
  fixes cr :: "('r, 'sg) crypto"
  assumes "curve_ok (tb_ec b) pts lg"
      and "build cr b s0 = Inr (tx, s')"
      and "(sum_list (map cs_value (tb_clear_inputs b))
             + sum_list (map (\<lambda>input. n_value (is_note input)) (tb_inputs b)))
             mod ec_order (tb_ec b)
           = sum_list (map os_value (tb_outputs b)) mod ec_order (tb_ec b)"
  shows "check_value_commits tx \<and>
         foldl (ec_add (tx_ec tx)) (0, 1, 0)
           (map (\<lambda>input. pedersen_encrypt (ci_value input) (ci_value_blind input) (tx_ec tx))
                (tx_clear_inputs tx)
            @ map (\<lambda>input. br_value_commit (ti_revealed input)) (tx_inputs tx)
            @ map (\<lambda>out. neg_point (mr_value_commit (to_revealed out))) (tx_outputs tx))
         = (0, 1, 0)"
proof -
  have "ec_order (tb_ec b) dvd
          sum_list (map cs_value (tb_clear_inputs b))
          + sum_list (map (\<lambda>input. n_value (is_note input)) (tb_inputs b))
          - sum_list (map os_value (tb_outputs b))"
    using assms(3) by (simp only: mod_eq_dvd_iff)
  from build_value_balance[OF assms(1,2) this] show ?thesis
    by (simp add: check_value_commits_alt)
qed

theorem build_value_commits_balance_witness:
  "check_value_commits demo_tx"
proof -
  have e: "tb_ec demo_builder = demo_curve" by (simp add: demo_builder_def)
  have h1: "curve_ok (tb_ec demo_builder) UNIV demo_lg" unfolding e by (rule demo_curve_ok)
  have h3: "(sum_list (map cs_value (tb_clear_inputs demo_builder))
             + sum_list (map (\<lambda>input. n_value (is_note input)) (tb_inputs demo_builder)))
             mod ec_order (tb_ec demo_builder)
           = sum_list (map os_value (tb_outputs demo_builder)) mod ec_order (tb_ec demo_builder)"
    by (simp add: demo_builder_def demo_note_def demo_curve_def)
  from build_value_commits_balance[OF h1 demo_build h3] show ?thesis by blast
qed

text \<open>The claim as stated fails: a clear input of value 5 against an output of value 6
  builds, and the value commitments of the result do not balance.\<close>

theorem unbalanced_build_counterexample:
  "curve_ok demo_curve UNIV demo_lg \<and>
   build demo_crypto demo_unbalanced_builder 0 = Inr (demo_unbalanced_tx, 4) \<and>
   \<not> check_value_commits demo_unbalanced_tx"
proof -
  have "build demo_crypto demo_unbalanced_builder 0 = Inr (demo_unbalanced_tx, 4)"
    by (simp add: demo_defs demo_unbalanced_builder_def demo_unbalanced_tx_def)
  moreover have "\<not> check_value_commits demo_unbalanced_tx" by code_simp
  ultimately show ?thesis using demo_curve_ok by blast
qed

text \<open>
  Claim C3 (token uniformity). In a transaction built from specs that all carry the same
  token id, the commitment \<open>commit(token_id, token_blind)\<close> of every clear input, the
  revealed token commitment of every shielded input and that of every output equal the
  revealed token commitment of the first output, and \<open>_verify_token_commitments\<close>
  returns True.
\<close>

theorem build_token_uniform:
  fixes cr :: "('r, 'sg) crypto"
  assumes "build cr b s0 = Inr (tx, s')"
      and "\<forall>input \<in> set (tb_clear_inputs b). cs_token_id input = t"
      and "\<forall>input \<in> set (tb_inputs b). n_token_id (is_note input) = t"
      and "\<forall>outp \<in> set (tb_outputs b). os_token_id outp = t"
  shows "tx_outputs tx \<noteq> [] \<and>
         (\<forall>ci \<in> set (tx_clear_inputs tx).
            pedersen_encrypt (ci_token_id ci) (ci_token_blind ci) (tx_ec tx) =
              mr_token_commit (to_revealed (tx_outputs tx ! 0))) \<and>
         (\<forall>ti \<in> set (tx_inputs tx).
            br_token_commit (ti_revealed ti) = mr_token_commit (to_revealed (tx_outputs tx ! 0))) \<and>
         (\<forall>out \<in> set (tx_outputs tx).
            mr_token_commit (to_revealed out) = mr_token_commit (to_revealed (tx_outputs tx ! 0))) \<and>
         verify_token_commitments tx = Inr True"
proof -
  note f = build_token_commits[OF assms]
  from f have ne: "tx_outputs tx \<noteq> []" by blast
  then have "tx_outputs tx ! 0 \<in> set (tx_outputs tx)" by simp
  with f have anchor: "mr_token_commit (to_revealed (tx_outputs tx ! 0)) =
                 pedersen_encrypt t (fst (random_scalar (tb_ec b) s0)) (tb_ec b)"
    by blast
  from f build_verify_token_commitments[OF assms] show ?thesis
    unfolding anchor by simp
qed

theorem build_token_uniform_witness:
  "tx_outputs demo_tx \<noteq> [] \<and> verify_token_commitments demo_tx = Inr True"
proof -
  have h5: "\<forall>input \<in> set (tb_clear_inputs demo_builder). cs_token_id input = 2"
    by (simp add: demo_builder_def)
  have h6: "\<forall>input \<in> set (tb_inputs demo_builder). n_token_id (is_note input) = 2"
    by (simp add: demo_builder_def demo_note_def)
  have h7: "\<forall>outp \<in> set (tb_outputs demo_builder). os_token_id outp = 2"
    by (simp add: demo_builder_def)
  from build_token_uniform[OF demo_build h5 h6 h7] show ?thesis by blast
qed

text \<open>
  Claim C4 (result of verify). The claim says that a failed signature check returns the
  pair \<open>(False, None)\<close>. On \<open>demo_forged_tx\<close>, which passes the first three gates and
  carries a signature made under another key, \<open>verify\<close> returns the single boolean
  \<open>False\<close> of \<open>return False\<close>, not a pair.
\<close>

theorem forged_signature_returns_bare_false:
  "tx_verify demo_crypto demo_forged_tx = Inr (Bool_result False)"
  by code_simp

text \<open>
  Claim C5 (witness of the burn proof), as amended. For every shielded input of the
  builder, \<open>build\<close> constructs the burn proof over the note's value, token id, serial,
  coin blind, depends and attrs, with the note's own value blind and with the token blind
  that \<open>build\<close> samples first. That same scalar is the token blind of every clear input
  of the transaction and of the mint proof and the note of every output.
\<close>

theorem burn_proof_blinds:
  fixes cr :: "('r, 'sg) crypto"
  assumes "build cr b s0 = Inr (tx, s')"
  shows "length (tx_inputs tx) = length (tb_inputs b) \<and>
         (\<forall>i < length (tb_inputs b).
            bp_value (ti_burn_proof (tx_inputs tx ! i)) = n_value (is_note (tb_inputs b ! i)) \<and>
            bp_token_id (ti_burn_proof (tx_inputs tx ! i)) = n_token_id (is_note (tb_inputs b ! i)) \<and>
            bp_serial (ti_burn_proof (tx_inputs tx ! i)) = n_serial (is_note (tb_inputs b ! i)) \<and>
            bp_coin_blind (ti_burn_proof (tx_inputs tx ! i)) = n_coin_blind (is_note (tb_inputs b ! i)) \<and>
            bp_depends (ti_burn_proof (tx_inputs tx ! i)) = n_depends (is_note (tb_inputs b ! i)) \<and>
            bp_attrs (ti_burn_proof (tx_inputs tx ! i)) = n_attrs (is_note (tb_inputs b ! i)) \<and>
            bp_value_blind (ti_burn_proof (tx_inputs tx ! i)) =
              n_value_blind (is_note (tb_inputs b ! i)) \<and>
            bp_token_blind (ti_burn_proof (tx_inputs tx ! i)) =
              fst (random_scalar (tb_ec b) s0)) \<and>
         (\<forall>ci \<in> set (tx_clear_inputs tx).
            ci_token_blind ci = fst (random_scalar (tb_ec b) s0)) \<and>
         (\<forall>out \<in> set (tx_outputs tx).
            mp_token_blind (to_mint_proof out) = fst (random_scalar (tb_ec b) s0) \<and>
            n_token_blind (to_enc_note out) = fst (random_scalar (tb_ec b) s0))"
proof -
  define ec where "ec = tb_ec b"
  define tb where "tb = fst (random_scalar ec s0)"
  from build_Inr[OF assms, folded ec_def, folded tb_def]
  obtain cis :: "'sg tx_clear_input list" and s2 ibs secs tis s3 tos s4 where
    c: "build_clear_inputs ec tb (tb_clear_inputs b) (snd (random_scalar ec s0)) = (cis, s2)" and
    i: "build_inputs cr ec tb (tb_inputs b) s2 = ((ibs, secs, tis), s3)" and
    o: "build_outputs cr ec tb cis ibs (length (tb_outputs b)) (enumerate 0 (tb_outputs b)) [] s3
          = Inr (tos, s4)" and
    txc: "tx_clear_inputs tx =
            fst (sign_clear_inputs cr ec ''hello'' (zip cis (tb_clear_inputs b)) s4)" and
    txi: "tx_inputs tx =
            fst (sign_inputs cr ec ''hello'' (zip tis secs)
              (snd (sign_clear_inputs cr ec ''hello'' (zip cis (tb_clear_inputs b)) s4)))" and
    txo: "tx_outputs tx = tos"
    by metis
  from build_inputs_built[OF i]
  have slen: "length secs = length (tb_inputs b)"
    and ib: "list_all2 (input_built cr ec tb) (tb_inputs b) tis"
    by blast+
  from ib have tlen: "length tis = length (tb_inputs b)" by (simp add: list_all2_lengthD)
  with slen have ilen: "length tis = length secs" by simp
  have bps: "map ti_burn_proof (tx_inputs tx) = map ti_burn_proof tis"
    unfolding txi by (rule signed_inputs_map[OF ilen]) simp
  then have len: "length (tx_inputs tx) = length (tb_inputs b)"
    using tlen by (metis length_map)
  have "input_built cr ec tb (tb_inputs b ! i) (tis ! i) \<and>
        ti_burn_proof (tx_inputs tx ! i) = ti_burn_proof (tis ! i)"
    if "i < length (tb_inputs b)" for i
  proof -
    from that len have "map ti_burn_proof (tx_inputs tx) ! i = ti_burn_proof (tx_inputs tx ! i)"
      by simp
    moreover from that tlen have "map ti_burn_proof tis ! i = ti_burn_proof (tis ! i)" by simp
    ultimately show ?thesis using bps list_all2_nthD2[OF ib, of i] that tlen by simp
  qed
  then have burn: "\<forall>i < length (tb_inputs b).
            bp_value (ti_burn_proof (tx_inputs tx ! i)) = n_value (is_note (tb_inputs b ! i)) \<and>
            bp_token_id (ti_burn_proof (tx_inputs tx ! i)) = n_token_id (is_note (tb_inputs b ! i)) \<and>
            bp_serial (ti_burn_proof (tx_inputs tx ! i)) = n_serial (is_note (tb_inputs b ! i)) \<and>
            bp_coin_blind (ti_burn_proof (tx_inputs tx ! i)) = n_coin_blind (is_note (tb_inputs b ! i)) \<and>
            bp_depends (ti_burn_proof (tx_inputs tx ! i)) = n_depends (is_note (tb_inputs b ! i)) \<and>
            bp_attrs (ti_burn_proof (tx_inputs tx ! i)) = n_attrs (is_note (tb_inputs b ! i)) \<and>
            bp_value_blind (ti_burn_proof (tx_inputs tx ! i)) =
              n_value_blind (is_note (tb_inputs b ! i)) \<and>
            bp_token_blind (ti_burn_proof (tx_inputs tx ! i)) = tb"
    by (simp add: input_built_def Let_def)
  have cb: "list_all2 (clear_built ec tb) (tb_clear_inputs b) cis"
    by (rule build_clear_inputs_built[OF c])
  then have clen: "length cis = length (tb_clear_inputs b)" by (simp add: list_all2_lengthD)
  have "map ci_token_blind (tx_clear_inputs tx) = map ci_token_blind cis"
    unfolding txc by (rule signed_clear_map[OF clen]) simp
  moreover have "ci_token_blind ci = tb" if "ci \<in> set cis" for ci
    using list_all2_right[OF cb that] by (auto simp: clear_built_def)
  ultimately have "\<forall>v \<in> set (map ci_token_blind (tx_clear_inputs tx)). v = tb" by auto
  then have clear: "\<forall>ci \<in> set (tx_clear_inputs tx). ci_token_blind ci = tb" by simp
  have ob: "list_all2 (output_built cr ec tb) (tb_outputs b) tos"
    using build_outputs_built[OF o] by (simp add: enumerate_eq_zip)
  have outs: "\<forall>out \<in> set (tx_outputs tx).
            mp_token_blind (to_mint_proof out) = tb \<and> n_token_blind (to_enc_note out) = tb"
  proof
    fix out assume "out \<in> set (tx_outputs tx)"
    then have "out \<in> set tos" by (simp add: txo)
    from list_all2_right[OF ob this]
    show "mp_token_blind (to_mint_proof out) = tb \<and> n_token_blind (to_enc_note out) = tb"
      by (auto simp: output_built_def Let_def)
  qed
  from len burn clear outs show ?thesis unfolding tb_def ec_def by blast
qed

theorem burn_proof_blinds_witness:
  "bp_value_blind (ti_burn_proof (tx_inputs demo_tx ! 0)) = n_value_blind demo_note \<and>
   bp_token_blind (ti_burn_proof (tx_inputs demo_tx ! 0)) = 2 \<and>
   map ci_token_blind (tx_clear_inputs demo_tx) = [2] \<and>
   map (\<lambda>out. n_token_blind (to_enc_note out)) (tx_outputs demo_tx) = [2, 2]"
proof -
  have "(0::nat) < length (tb_inputs demo_builder)" by (simp add: demo_builder_def)
  with burn_proof_blinds[OF demo_build]
  have "bp_value_blind (ti_burn_proof (tx_inputs demo_tx ! 0)) =
          n_value_blind (is_note (tb_inputs demo_builder ! 0)) \<and>
        bp_token_blind (ti_burn_proof (tx_inputs demo_tx ! 0)) =
          fst (random_scalar (tb_ec demo_builder) 0)"
    and "\<forall>ci \<in> set (tx_clear_inputs demo_tx).
            ci_token_blind ci = fst (random_scalar (tb_ec demo_builder) 0)"
    and "\<forall>out \<in> set (tx_outputs demo_tx).
            n_token_blind (to_enc_note out) = fst (random_scalar (tb_ec demo_builder) 0)"
    by blast+
  then show ?thesis by (simp add: demo_builder_def demo_curve_def demo_tx_def)
qed

text \<open>The claim as stated fails on the token blind: the note of \<open>demo_builder\<close> has
  token blind 5, the burn proof built from it has the shared token blind 2.\<close>

theorem burn_proof_token_blind_counterexample:
  "build demo_crypto demo_builder 0 = Inr (demo_tx, 8) \<and>
   bp_token_blind (ti_burn_proof (tx_inputs demo_tx ! 0)) = 2 \<and>
   n_token_blind (is_note (tb_inputs demo_builder ! 0)) = 5"
  by (simp add: demo_build) (simp add: demo_tx_def demo_builder_def demo_note_def)

text \<open>
  Claim C6 (unsigned encoding), as amended. \<open>partial_encode\<close> is deterministic: it
  returns the same byte string \<open>hello\<close> for every transaction, so the message is the
  same when the transaction is signed and when it is verified. It depends on no field.
\<close>

theorem partial_encode_constant:
  "partial_encode tx = ''hello'' \<and> partial_encode tx = partial_encode tx'"
  by (simp add: partial_encode_def)

text \<open>The claim as stated fails: two transactions that differ in their outputs have the
  same encoding.\<close>

theorem partial_encode_counterexample:
  "tx_outputs demo_tx \<noteq> tx_outputs demo_empty_tx \<and>
   partial_encode demo_tx = partial_encode demo_empty_tx"
  by (simp add: partial_encode_def demo_tx_def demo_empty_tx_def)

text \<open>
  Claim C7 (foreign notes). If the coin recomputed from the witness of a burn proof is not
  in its coin set, \<open>BurnProof.verify\<close> is false for every claim; and a transaction that
  holds such a proof in one of its shielded inputs and whose value commitments balance
  fails \<open>verify\<close> with the pair \<open>(False, "proofs failed to verify")\<close>.
\<close>

theorem foreign_note_rejected:
  assumes "burn_coin cr bp \<notin> bp_all_coins bp"
  shows "\<not> burn_verify cr bp claim \<and>
         (bp \<in> ti_burn_proof ` set (tx_inputs tx) \<and> check_value_commits tx \<longrightarrow>
            tx_verify cr tx = Inr (Pair_result False (Some ''proofs failed to verify'')))"
proof -
  have no: "\<not> burn_verify cr bp c" for c
    using assms by (simp add: burn_verify_def Let_def)
  have "\<not> check_burn_proofs cr (tx_inputs tx)" if "bp \<in> ti_burn_proof ` set (tx_inputs tx)"
    using that no unfolding check_burn_proofs_iff by auto
  then show ?thesis using no by (auto simp: tx_verify_def check_proofs_def)
qed

theorem foreign_note_rejected_witness:
  "\<not> burn_verify demo_crypto (ti_burn_proof (tx_inputs demo_foreign_tx ! 0))
       (ti_revealed (tx_inputs demo_foreign_tx ! 0)) \<and>
   tx_verify demo_crypto demo_foreign_tx =
     Inr (Pair_result False (Some ''proofs failed to verify''))"
proof -
  have h1: "burn_coin demo_crypto (ti_burn_proof (tx_inputs demo_foreign_tx ! 0))
              \<notin> bp_all_coins (ti_burn_proof (tx_inputs demo_foreign_tx ! 0))"
    by code_simp
  have h2: "ti_burn_proof (tx_inputs demo_foreign_tx ! 0)
              \<in> ti_burn_proof ` set (tx_inputs demo_foreign_tx)"
    by (simp add: demo_foreign_tx_def)
  have h3: "check_value_commits demo_foreign_tx" by code_simp
  from foreign_note_rejected[OF h1, of "ti_revealed (tx_inputs demo_foreign_tx ! 0)" demo_foreign_tx]
    h2 h3
  show ?thesis by blast
qed

text \<open>
  Claim C8 (value blinds of the outputs). In a transaction that \<open>build\<close> returns from
  \<open>k \<ge> 1\<close> outputs, the value blind of the last output is the sum of the value blinds of
  the clear inputs plus the sum of the value blinds of the notes minus the sum of the value
  blinds of the earlier outputs, modulo the scalar-field order; the value blind of every
  other output \<open>j\<close> is the scalar that \<open>random_scalar\<close> returns in the generator state
  reached after the two input loops and the samplings of the \<open>j\<close> outputs before it.
\<close>

theorem output_value_blinds:
  fixes cr :: "('r, 'sg) crypto"
  assumes "build cr b s0 = Inr (tx, s')"
  shows "1 \<le> length (tb_outputs b) \<and> length (tx_outputs tx) = length (tb_outputs b) \<and>
         n_value_blind (to_enc_note (tx_outputs tx ! (length (tb_outputs b) - 1))) =
           (sum_list (map ci_value_blind (tx_clear_inputs tx))
            + sum_list (map (\<lambda>input. n_value_blind (is_note input)) (tb_inputs b))
            - sum_list (map (\<lambda>out. n_value_blind (to_enc_note out))
                          (take (length (tb_outputs b) - 1) (tx_outputs tx))))
           mod ec_order (tb_ec b) \<and>
         (\<forall>j < length (tb_outputs b) - 1.
            n_value_blind (to_enc_note (tx_outputs tx ! j)) =
              fst (random_scalar (tb_ec b)
                     ((after_output (tb_ec b) ^^ j) (outputs_start cr b s0))))"
proof -
  define ec where "ec = tb_ec b"
  define tb where "tb = fst (random_scalar ec s0)"
  from build_Inr[OF assms, folded ec_def, folded tb_def]
  obtain cis :: "'sg tx_clear_input list" and s2 ibs secs tis s3 tos s4 where
    c: "build_clear_inputs ec tb (tb_clear_inputs b) (snd (random_scalar ec s0)) = (cis, s2)" and
    i: "build_inputs cr ec tb (tb_inputs b) s2 = ((ibs, secs, tis), s3)" and
    ne: "tb_outputs b \<noteq> []" and
    o: "build_outputs cr ec tb cis ibs (length (tb_outputs b)) (enumerate 0 (tb_outputs b)) [] s3
          = Inr (tos, s4)" and
    txc: "tx_clear_inputs tx =
            fst (sign_clear_inputs cr ec ''hello'' (zip cis (tb_clear_inputs b)) s4)" and
    txo: "tx_outputs tx = tos"
    by metis
  have start: "outputs_start cr b s0 = s3"
    using c i by (simp add: outputs_start_def split_beta ec_def tb_def)
  have cb: "list_all2 (clear_built ec tb) (tb_clear_inputs b) cis"
    by (rule build_clear_inputs_built[OF c])
  then have clen: "length cis = length (tb_clear_inputs b)" by (simp add: list_all2_lengthD)
  have vbs: "map ci_value_blind (tx_clear_inputs tx) = map ci_value_blind cis"
    unfolding txc by (rule signed_clear_map[OF clen]) simp
  from build_inputs_built[OF i]
  have ibs: "ibs = map (\<lambda>input. n_value_blind (is_note input)) (tb_inputs b)" by blast
  have "0 + length (tb_outputs b) = length (tb_outputs b)" by simp
  from build_outputs_blinds[OF o this ne]
  have len: "length tos = length (tb_outputs b)"
    and lastb: "map (\<lambda>out. n_value_blind (to_enc_note out)) tos ! (length (tb_outputs b) - 1) =
           (sum_list (map ci_value_blind cis) + sum_list ibs
              - (sum_list [] + sum_list (take (length (tb_outputs b) - 1)
                     (map (\<lambda>out. n_value_blind (to_enc_note out)) tos)))) mod ec_order ec"
    and others: "\<forall>j < length (tb_outputs b) - 1.
            map (\<lambda>out. n_value_blind (to_enc_note out)) tos ! j =
              fst (random_scalar ec ((after_output ec ^^ j) s3))"
    by blast+
  from ne have k: "1 \<le> length (tb_outputs b)" by (cases "tb_outputs b") auto
  have l: "n_value_blind (to_enc_note (tos ! (length (tb_outputs b) - 1))) =
           (sum_list (map ci_value_blind cis) + sum_list ibs
              - sum_list (map (\<lambda>out. n_value_blind (to_enc_note out))
                            (take (length (tb_outputs b) - 1) tos))) mod ec_order ec"
    using lastb k len by (simp add: take_map)
  have r: "n_value_blind (to_enc_note (tos ! j)) =
             fst (random_scalar ec ((after_output ec ^^ j) s3))"
    if "j < length (tb_outputs b) - 1" for j
    using others that len by simp
  from k len l r show ?thesis
    unfolding txo vbs start ibs[symmetric] ec_def[symmetric] by simp
qed

theorem output_value_blinds_witness:
  "n_value_blind (to_enc_note (tx_outputs demo_tx ! 1)) = (3 + 4 - 5) mod 7 \<and>
   n_value_blind (to_enc_note (tx_outputs demo_tx ! 0)) = fst (random_scalar demo_curve 3)"
proof -
  have k: "length (tb_outputs demo_builder) = 2" by (simp add: demo_builder_def)
  have st: "outputs_start demo_crypto demo_builder 0 = 3"
    by (simp add: outputs_start_def demo_builder_def demo_curve_def demo_note_def
          demo_crypto_def burn_get_revealed_def pedersen_encrypt_def Let_def)
  from output_value_blinds[OF demo_build]
  have "n_value_blind (to_enc_note (tx_outputs demo_tx ! (length (tb_outputs demo_builder) - 1))) =
           (sum_list (map ci_value_blind (tx_clear_inputs demo_tx))
            + sum_list (map (\<lambda>input. n_value_blind (is_note input)) (tb_inputs demo_builder))
            - sum_list (map (\<lambda>out. n_value_blind (to_enc_note out))
                          (take (length (tb_outputs demo_builder) - 1) (tx_outputs demo_tx))))
           mod ec_order (tb_ec demo_builder)"
    and "\<forall>j < length (tb_outputs demo_builder) - 1.
            n_value_blind (to_enc_note (tx_outputs demo_tx ! j)) =
              fst (random_scalar (tb_ec demo_builder)
                     ((after_output (tb_ec demo_builder) ^^ j)
                        (outputs_start demo_crypto demo_builder 0)))"
    by blast+
  then show ?thesis unfolding k st
    by (simp add: demo_builder_def demo_tx_def demo_note_def demo_curve_def)
qed

text \<open>
  Claim C9 (no outputs), as amended. \<open>verify\<close> never accepts a transaction without
  outputs and never reads \<open>outputs[0]\<close> of it: if the value commitments do not balance or
  a proof fails, it returns the failure pair of that gate; otherwise the assertion
  \<open>len(self.outputs) > 0\<close> of \<open>_verify_token_commitments\<close> fails.
\<close>

theorem verify_without_outputs:
  assumes "tx_outputs tx = []"
  shows "tx_verify cr tx =
           (if \<not> check_value_commits tx
            then Inr (Pair_result False (Some ''value commits do not match''))
            else if \<not> check_proofs cr tx
            then Inr (Pair_result False (Some ''proofs failed to verify''))
            else Inl AssertionError) \<and>
         tx_verify cr tx \<noteq> Inl IndexError \<and>
         tx_verify cr tx \<noteq> Inr (Pair_result True None)"
  using assms by (simp add: tx_verify_def verify_token_commitments_def)

theorem verify_without_outputs_witness:
  "tx_verify demo_crypto demo_empty_tx = Inl AssertionError"
proof -
  have h: "tx_outputs demo_empty_tx = []" by (simp add: demo_empty_tx_def)
  have c: "check_value_commits demo_empty_tx" by code_simp
  have p: "check_proofs demo_crypto demo_empty_tx" by code_simp
  from verify_without_outputs[OF h, of demo_crypto] c p show ?thesis by simp
qed

text \<open>The claim as stated fails: a transaction without outputs whose clear input is not
  balanced gets the ordinary failure of the first gate.\<close>

theorem verify_without_outputs_counterexample:
  "tx_outputs demo_no_output_tx = [] \<and>
   tx_verify demo_crypto demo_no_output_tx =
     Inr (Pair_result False (Some ''value commits do not match''))"
proof -
  have "tx_outputs demo_no_output_tx = []" by (simp add: demo_no_output_tx_def)
  moreover have "tx_verify demo_crypto demo_no_output_tx =
     Inr (Pair_result False (Some ''value commits do not match''))" by code_simp
  ultimately show ?thesis by blast
qed

text \<open>
  Claim C10 (self-verification of a burn proof). \<open>BurnProof.verify\<close> applied to the
  proof's own \<open>get_revealed()\<close> is true exactly when the coin recomputed from the
  witness, \<open>ff_hash(p, pk.x, pk.y, value, token_id, serial, coin_blind, depends, attrs)\<close>
  with \<open>pk = secret\<cdot>G\<close>, is in \<open>all_coins\<close>: the five comparisons always succeed.
\<close>

theorem burn_self_verify:
  "burn_verify cr bp (burn_get_revealed cr bp) \<longleftrightarrow>
     ff_hash cr [ec_p (bp_ec bp),
                 fst (ec_multiply (bp_ec bp) (bp_secret bp) (ec_G (bp_ec bp))),
                 fst (snd (ec_multiply (bp_ec bp) (bp_secret bp) (ec_G (bp_ec bp)))),
                 bp_value bp, bp_token_id bp, bp_serial bp, bp_coin_blind bp,
                 bp_depends bp, bp_attrs bp] \<in> bp_all_coins bp"
  by (simp add: burn_verify_def burn_coin_def Let_def)

theorem burn_self_verify_witness:
  "burn_verify demo_crypto (ti_burn_proof (tx_inputs demo_tx ! 0))
     (burn_get_revealed demo_crypto (ti_burn_proof (tx_inputs demo_tx ! 0)))"
proof -
  have "ff_hash demo_crypto [ec_p (bp_ec (ti_burn_proof (tx_inputs demo_tx ! 0))),
          fst (ec_multiply (bp_ec (ti_burn_proof (tx_inputs demo_tx ! 0)))
                 (bp_secret (ti_burn_proof (tx_inputs demo_tx ! 0)))
                 (ec_G (bp_ec (ti_burn_proof (tx_inputs demo_tx ! 0))))),
          fst (snd (ec_multiply (bp_ec (ti_burn_proof (tx_inputs demo_tx ! 0)))
                 (bp_secret (ti_burn_proof (tx_inputs demo_tx ! 0)))
                 (ec_G (bp_ec (ti_burn_proof (tx_inputs demo_tx ! 0)))))),
          bp_value (ti_burn_proof (tx_inputs demo_tx ! 0)),
          bp_token_id (ti_burn_proof (tx_inputs demo_tx ! 0)),
          bp_serial (ti_burn_proof (tx_inputs demo_tx ! 0)),
          bp_coin_blind (ti_burn_proof (tx_inputs demo_tx ! 0)),
          bp_depends (ti_burn_proof (tx_inputs demo_tx ! 0)),
          bp_attrs (ti_burn_proof (tx_inputs demo_tx ! 0))]
        \<in> bp_all_coins (ti_burn_proof (tx_inputs demo_tx ! 0))"
    by code_simp
  with burn_self_verify[of demo_crypto "ti_burn_proof (tx_inputs demo_tx ! 0)"]
  show ?thesis by blast
qed

end
